theory Spec2Isabelle
  imports Main "HOL-Library.Sublist"
begin

section \<open>Lead classification automation: the batch pipeline of index.js\<close>

text \<open>
  The program reads a batch of leads from a CSV file, drops the leads whose email is already
  in the store (one bulk query), classifies the remaining ones through a language-model
  service under a concurrency limit, inserts them into the store (one bulk insert), posts each
  one to a webhook under the same limit, and prints a summary.

  The script is JavaScript on a single thread. Every external service (file system, store,
  classification service, webhook, clock) is a parameter of the model, collected in the record
  \<open>env\<close>: what a call returns or throws is a value of a datatype, so every \<open>catch\<close> block
  of the source is a branch of the model. Everything the program does to the outside (console
  lines and calls to the services) is recorded, in the order in which it happens, in a list
  of \<open>effect\<close>s that each function returns along with its result.

  Strings are lists of 8-bit characters; the source's strings are UTF-16, which makes no
  difference to anything below except the set of characters that \<open>trim\<close> removes (the
  model removes the ASCII white space).
\<close>

subsection \<open>Data\<close>

text \<open>A row of the CSV file, parsed with \<open>columns: true\<close>: an object keyed by the header.\<close>

record lead =
  First_Name :: string
  Last_Name :: string
  Job_Title :: string
  Company :: string
  Email :: string
  Phone :: string

text \<open>The object \<open>{ lead, persona }\<close> built by the classification callback.\<close>

record classified =
  lead :: lead
  persona :: string

text \<open>
  The row inserted into the table \<open>leads\<close> and the payload posted to the webhook share
  seven fields.
\<close>

record contact_fields =
  first_name :: string
  last_name :: string
  job_title :: string
  company :: string
  email :: string
  phone :: string
  persona :: string

record db_row = contact_fields +
  lead_status :: string

record payload = contact_fields +
  processed_at :: string

text \<open>
  A value caught by a \<open>catch\<close> block: an error thrown by a service, with its message, or
  the \<open>TypeError\<close> of reading a property of \<open>null\<close> or \<open>undefined\<close>.
\<close>

datatype js_error = Thrown string | TypeError

subsection \<open>The external services\<close>

text \<open>
  \<^item> \<open>fs.readFileSync\<close> followed by \<open>parse\<close>: the records, or an exception.
  \<^item> \<open>supabase.from('leads').select('email').in('email', emails)\<close>: an exception, or
    the object \<open>{ data, error }\<close>; \<open>data\<close> is \<open>null\<close> (\<open>None\<close>) or the list of
    the emails of the rows found, \<open>error\<close> is \<open>null\<close> or an error with a message.
  \<^item> \<open>anthropic.messages.create\<close>: an exception, or a message whose \<open>content\<close> is a list
    of blocks; only a text block has a \<open>text\<close>.
  \<^item> \<open>supabase.from('leads').insert(rows)\<close>: an exception, or the object \<open>{ error }\<close>.
  \<^item> \<open>axios.post\<close>: an exception, or a response with a \<open>status\<close>.
\<close>

datatype csv_outcome = Csv_throws string | Csv_records "lead list"

datatype select_outcome = Select_throws string | Select_returns "string list option" "string option"

datatype content_block = Text_block string | Other_block

datatype create_outcome = Create_throws string | Create_returns "content_block list"

datatype insert_outcome = Insert_throws string | Insert_returns "string option"

datatype post_outcome = Post_throws string | Post_returns nat

text \<open>
  The prompt is a fixed text around the lead's first name, last name, job title and company;
  the model keeps these four strings.
\<close>

type_synonym prompt = "string \<times> string \<times> string \<times> string"

text \<open>
  The answers of the services, the clock reading \<open>new Date().toISOString()\<close> taken when
  the delivery of the item at a given position starts, and, for the two stages that run under
  the concurrency limit, the time each operation takes to settle, by position of its item in
  the input. Operations of a chunk settle by increasing latency, and in the order in which
  they were started when the latencies are equal.
\<close>

record env =
  readFileSync_parse :: "string \<Rightarrow> csv_outcome"
  select_email_in :: "string list \<Rightarrow> select_outcome"
  messages_create :: "prompt \<Rightarrow> create_outcome"
  insert_rows :: "db_row list \<Rightarrow> insert_outcome"
  axios_post :: "payload \<Rightarrow> post_outcome"
  toISOString_now :: "nat \<Rightarrow> string"
  classify_latency :: "nat \<Rightarrow> nat"
  webhook_latency :: "nat \<Rightarrow> nat"

subsection \<open>Console lines and effects\<close>

text \<open>
  A JavaScript number that counts: a natural number or \<open>NaN\<close> (what \<open>undefined++\<close>
  stores).
\<close>

datatype jsnum = Num nat | NaN

text \<open>
  The numbers printed by the summary block at the end of \<open>main\<close>. The elapsed time, which is
  real time, is left out.
\<close>

record run_summary =
  total_leads :: nat
  successfully_processed :: nat
  skipped_duplicates :: nat
  failed_db_inserts :: nat
  webhook_sent :: nat
  webhook_failed :: nat
  persona_1 :: "jsnum option"
  persona_2 :: "jsnum option"
  persona_3 :: "jsnum option"
  persona_4 :: "jsnum option"

text \<open>
  One constructor for each \<open>console.log\<close>, \<open>console.warn\<close> and \<open>console.error\<close> of
  the source, with the values it interpolates. \<open>Log_rule\<close> is the line of sixty \<open>=\<close>;
  the lines of the summary block are one \<open>Log_summary\<close>.
\<close>

datatype console_line =
    Log_rule
  | Log_title string
  | Log_reading_csv
  | Log_read_ok nat
  | Err_reading_csv string
  | Log_checking_duplicates
  | Err_checking_duplicates string
  | Log_skipped string string
  | Log_found nat nat
  | Err_duplicate_check js_error
  | Warn_unexpected_classification string string string
  | Err_classifying string string js_error
  | Log_classifying nat nat
  | Log_classified string string string string
  | Log_all_classified nat
  | Log_inserting nat
  | Err_batch_insert string
  | Log_inserted nat
  | Err_adding_to_database string
  | Log_sending nat nat
  | Warn_webhook_status nat string
  | Err_webhook string string
  | Log_webhook nat nat
  | Log_nothing_to_process
  | Log_summary run_summary
  | Log_finished
  | Err_fatal js_error

text \<open>
  What the program does to the outside: a console line, or a call to a service. The calls
  made under the concurrency limit carry the position of their item in the input, and have a
  second event for the moment the call settles.
\<close>

datatype effect =
    Console console_line
  | Select_issued "string list"
  | Create_issued nat prompt
  | Create_settled nat
  | Insert_issued "db_row list"
  | Post_issued nat payload
  | Post_settled nat

definition CSV_FILE_PATH :: string where
  "CSV_FILE_PATH = ''./sample_leads.csv''"

definition CONCURRENCY :: nat where
  "CONCURRENCY = 5"

subsection \<open>runWithConcurrency\<close>

text \<open>
  \<^verbatim>\<open>
  async function runWithConcurrency(items, concurrency, fn) {
    const results = [];
    for (let i = 0; i < items.length; i += concurrency) {
      const batch = items.slice(i, i + concurrency);
      const batchResults = await Promise.all(batch.map(fn));
      results.push(...batchResults);
    }
    return results;
  }
  \<close>
  An asynchronous operation \<open>fn\<close> is modelled by its outcome on each item: \<open>Inr v\<close> when
  its promise is fulfilled with \<open>v\<close>, \<open>Inl e\<close> when it is rejected with \<open>e\<close>; \<open>lat j\<close>
  is the time the operation on the item at position \<open>j\<close> takes. The concurrency bound is a
  natural number (the only caller passes \<open>CONCURRENCY\<close>).

  \<open>batch.map(fn)\<close> starts the operations of the chunk, in order, before anything else
  happens (\<open>Started\<close>); they settle later, by increasing latency (\<open>Settled\<close>).
  \<open>Promise.all\<close> is fulfilled once all of them are fulfilled, with their values in the
  order of the chunk; it is rejected as soon as one of them is rejected, with that error, and
  then the \<open>await\<close> throws and the function returns a rejected promise: the events of the
  operations still pending are no longer the function's. With a bound of zero and a nonempty
  input the loop never ends, which is the value \<open>None\<close>.
\<close>

datatype 'a event = Started nat 'a | Settled nat 'a

definition slice :: "'a list \<Rightarrow> nat \<Rightarrow> nat \<Rightarrow> 'a list" where
  "slice xs i j = take (j - i) (drop i xs)"

text \<open>
  The operations of a chunk in the order in which they settle, up to the first one that is
  rejected, and its error; \<open>None\<close> when all are fulfilled.
\<close>

fun first_rejection :: "('a \<Rightarrow> 'e + 'b) \<Rightarrow> (nat \<times> 'a) list \<Rightarrow> ((nat \<times> 'a) list \<times> 'e) option" where
  "first_rejection fn [] = None"
| "first_rejection fn ((j, x) # rest) =
     (case fn x of
        Inl e \<Rightarrow> Some ([(j, x)], e)
      | Inr v \<Rightarrow> map_option (\<lambda>(js, e). ((j, x) # js, e)) (first_rejection fn rest))"

fun fulfilled :: "('e + 'b) list \<Rightarrow> 'b list" where
  "fulfilled [] = []"
| "fulfilled (Inr v # rs) = v # fulfilled rs"
| "fulfilled (Inl e # rs) = fulfilled rs"

partial_function (option) rwc_loop ::
  "'a list \<Rightarrow> nat \<Rightarrow> ('a \<Rightarrow> 'e + 'b) \<Rightarrow> (nat \<Rightarrow> nat) \<Rightarrow> nat \<Rightarrow> 'b list \<Rightarrow> 'a event list
     \<Rightarrow> (('e + 'b list) \<times> 'a event list) option" where
  "rwc_loop items concurrency fn lat i results tr =
     (if i < length items then
        (let batch = slice items i (i + concurrency);
             tagged = zip [i ..< i + length batch] batch;
             settle_order = sort_key (\<lambda>(j, x). lat j) tagged
         in (case first_rejection fn settle_order of
               Some (settled, e) \<Rightarrow>
                 Some (Inl e,
                       tr @ map (\<lambda>(j, x). Started j x) tagged @ map (\<lambda>(j, x). Settled j x) settled)
             | None \<Rightarrow>
                 rwc_loop items concurrency fn lat (i + concurrency)
                   (results @ fulfilled (map fn batch))
                   (tr @ map (\<lambda>(j, x). Started j x) tagged
                       @ map (\<lambda>(j, x). Settled j x) settle_order)))
      else Some (Inr results, tr))"

declare rwc_loop.simps [code]

definition runWithConcurrency ::
  "'a list \<Rightarrow> nat \<Rightarrow> ('a \<Rightarrow> 'e + 'b) \<Rightarrow> (nat \<Rightarrow> nat) \<Rightarrow> (('e + 'b list) \<times> 'a event list) option" where
  "runWithConcurrency items concurrency fn lat = rwc_loop items concurrency fn lat 0 [] []"

subsection \<open>readCSV\<close>

definition readCSV :: "env \<Rightarrow> string \<Rightarrow> (js_error + lead list) \<times> effect list" where
  "readCSV w filePath =
     (case readFileSync_parse w filePath of
        Csv_records records \<Rightarrow>
          (Inr records, [Console Log_reading_csv, Console (Log_read_ok (length records))])
      | Csv_throws msg \<Rightarrow>
          (Inl (Thrown msg), [Console Log_reading_csv, Console (Err_reading_csv msg)]))"

subsection \<open>filterDuplicates\<close>

text \<open>
  The query is issued once, for the emails of the whole batch. The branches, in the order of
  the source: the call throws (caught at the end of the function); \<open>error\<close> is set; \<open>data\<close>
  is \<open>null\<close> with no error, so that \<open>data.map\<close> throws a \<open>TypeError\<close> (caught as
  well); otherwise the loop over the leads, with \<open>existingEmails\<close> the set of the emails
  returned.
\<close>

record dedup_result =
  newLeads :: "lead list"
  duplicateCount :: nat

fun dedup_loop :: "string set \<Rightarrow> lead list \<Rightarrow> lead list \<Rightarrow> nat \<Rightarrow> effect list
    \<Rightarrow> lead list \<times> nat \<times> effect list" where
  "dedup_loop existingEmails [] new_leads duplicate_count tr = (new_leads, duplicate_count, tr)"
| "dedup_loop existingEmails (ld # rest) new_leads duplicate_count tr =
     (if Email ld \<in> existingEmails
      then dedup_loop existingEmails rest new_leads (duplicate_count + 1)
             (tr @ [Console (Log_skipped (First_Name ld) (Last_Name ld))])
      else dedup_loop existingEmails rest (new_leads @ [ld]) duplicate_count tr)"

definition filterDuplicates :: "env \<Rightarrow> lead list \<Rightarrow> dedup_result \<times> effect list" where
  "filterDuplicates w leads =
     (let emails = map Email leads;
          tr = [Console Log_checking_duplicates, Select_issued emails]
      in case select_email_in w emails of
           Select_throws msg \<Rightarrow>
             (\<lparr>newLeads = leads, duplicateCount = 0\<rparr>,
              tr @ [Console (Err_duplicate_check (Thrown msg))])
         | Select_returns data error \<Rightarrow>
             (case error of
                Some msg \<Rightarrow>
                  (\<lparr>newLeads = leads, duplicateCount = 0\<rparr>,
                   tr @ [Console (Err_checking_duplicates msg)])
              | None \<Rightarrow>
                  (case data of
                     None \<Rightarrow>
                       (\<lparr>newLeads = leads, duplicateCount = 0\<rparr>,
                        tr @ [Console (Err_duplicate_check TypeError)])
                   | Some rows \<Rightarrow>
                       (case dedup_loop (set rows) leads [] 0 tr of
                          (new_leads, duplicate_count, tr') \<Rightarrow>
                            (\<lparr>newLeads = new_leads, duplicateCount = duplicate_count\<rparr>,
                             tr' @ [Console (Log_found duplicate_count (length new_leads))])))))"

subsection \<open>classifyLead and classifyLeads\<close>

text \<open>
  \<^verbatim>\<open>
    const classification = message.content[0].text.trim();
    // Validate the response
    if (!classification.match(/Persona [1-4]/)) { ... return 'Persona 4'; }
    return classification;
  \<close>
  The regular expression has no anchors: \<open>match\<close> succeeds when the pattern occurs anywhere
  in the string. \<open>match_here\<close> is the pattern at the start of a string, \<open>match_Persona\<close>
  the search through it. An empty \<open>content\<close>, or a first block without a text, makes the
  first line throw a \<open>TypeError\<close>, which the \<open>catch\<close> block turns into \<open>Persona 4\<close> like
  an error of the service.
\<close>

definition is_whitespace :: "char \<Rightarrow> bool" where
  "is_whitespace c \<longleftrightarrow> c \<in> set [CHR 0x09, CHR 0x0A, CHR 0x0B, CHR 0x0C, CHR 0x0D, CHR '' '']"

definition trim :: "string \<Rightarrow> string" where
  "trim s = rev (dropWhile is_whitespace (rev (dropWhile is_whitespace s)))"

definition match_here :: "string \<Rightarrow> bool" where
  "match_here s =
     (take 8 s = ''Persona '' \<and>
      (case drop 8 s of [] \<Rightarrow> False | d # rest \<Rightarrow> d \<in> set ''1234''))"

fun match_Persona :: "string \<Rightarrow> bool" where
  "match_Persona [] = False"
| "match_Persona (c # cs) = (match_here (c # cs) \<or> match_Persona cs)"

definition build_prompt :: "lead \<Rightarrow> prompt" where
  "build_prompt ld = (First_Name ld, Last_Name ld, Job_Title ld, Company ld)"

text \<open>The persona returned, and the console lines written once the service has answered.\<close>

definition classifyLead :: "env \<Rightarrow> lead \<Rightarrow> string \<times> console_line list" where
  "classifyLead w ld =
     (case messages_create w (build_prompt ld) of
        Create_throws msg \<Rightarrow>
          (''Persona 4'', [Err_classifying (First_Name ld) (Last_Name ld) (Thrown msg)])
      | Create_returns [] \<Rightarrow>
          (''Persona 4'', [Err_classifying (First_Name ld) (Last_Name ld) TypeError])
      | Create_returns (Other_block # rest) \<Rightarrow>
          (''Persona 4'', [Err_classifying (First_Name ld) (Last_Name ld) TypeError])
      | Create_returns (Text_block text # rest) \<Rightarrow>
          (let classification = trim text
           in if \<not> match_Persona classification
              then (''Persona 4'',
                    [Warn_unexpected_classification (First_Name ld) (Last_Name ld) classification])
              else (classification, [])))"

text \<open>
  The callback that \<open>classifyLeads\<close> passes to the limiter awaits \<open>classifyLead\<close>, which
  catches every error, so its promise is always fulfilled. The request is issued when the
  callback starts; the lines of \<open>classifyLead\<close> and the line of the callback are written
  when it settles.
\<close>

definition classify_callback :: "env \<Rightarrow> lead \<Rightarrow> js_error + classified" where
  "classify_callback w ld = Inr \<lparr>lead = ld, persona = fst (classifyLead w ld)\<rparr>"

fun classify_effects :: "env \<Rightarrow> lead event \<Rightarrow> effect list" where
  "classify_effects w (Started j ld) = [Create_issued j (build_prompt ld)]"
| "classify_effects w (Settled j ld) =
     Create_settled j # map Console (snd (classifyLead w ld)) @
     [Console (Log_classified (First_Name ld) (Last_Name ld) (Job_Title ld)
                 (fst (classifyLead w ld)))]"

definition classifyLeads :: "env \<Rightarrow> lead list \<Rightarrow> ((js_error + classified list) \<times> effect list) option" where
  "classifyLeads w leads =
     (case runWithConcurrency leads CONCURRENCY (classify_callback w) (classify_latency w) of
        None \<Rightarrow> None
      | Some (Inl e, evs) \<Rightarrow>
          Some (Inl e, Console (Log_classifying (length leads) CONCURRENCY)
                       # concat (map (classify_effects w) evs))
      | Some (Inr results, evs) \<Rightarrow>
          Some (Inr results,
                Console (Log_classifying (length leads) CONCURRENCY)
                # concat (map (classify_effects w) evs)
                @ [Console (Log_all_classified (length results))]))"

subsection \<open>addLeadsToDatabase\<close>

record db_result =
  success :: bool
  count :: nat

definition to_row :: "classified \<Rightarrow> db_row" where
  "to_row c =
     \<lparr>first_name = First_Name (lead c),
      last_name = Last_Name (lead c),
      job_title = Job_Title (lead c),
      company = Company (lead c),
      email = Email (lead c),
      phone = Phone (lead c),
      persona = classified.persona c,
      lead_status = ''Not Contacted''\<rparr>"

definition addLeadsToDatabase :: "env \<Rightarrow> classified list \<Rightarrow> db_result \<times> effect list" where
  "addLeadsToDatabase w classifiedLeads =
     (let rows = map to_row classifiedLeads;
          tr = [Console (Log_inserting (length classifiedLeads)), Insert_issued rows]
      in case insert_rows w rows of
           Insert_returns (Some msg) \<Rightarrow>
             (\<lparr>success = False, count = 0\<rparr>, tr @ [Console (Err_batch_insert msg)])
         | Insert_returns None \<Rightarrow>
             (\<lparr>success = True, count = length rows\<rparr>, tr @ [Console (Log_inserted (length rows))])
         | Insert_throws msg \<Rightarrow>
             (\<lparr>success = False, count = 0\<rparr>, tr @ [Console (Err_adding_to_database msg)]))"

subsection \<open>sendLeadsToWebhook\<close>

text \<open>
  The callback builds the payload and calls \<open>axios.post\<close> when it starts; when the call
  settles it adds one to \<open>successCount\<close> or to \<open>failCount\<close>, two variables shared by all
  the callbacks. Its \<open>try\<close> block covers its whole body, so its promise is always fulfilled
  (with \<open>undefined\<close>). The two counters and the effects are the state that \<open>webhook_step\<close>
  passes through the events of the limiter, in the order in which they happen.
\<close>

record webhook_result =
  successCount :: nat
  failCount :: nat

definition build_payload :: "env \<Rightarrow> nat \<Rightarrow> classified \<Rightarrow> payload" where
  "build_payload w j c =
     \<lparr>first_name = First_Name (lead c),
      last_name = Last_Name (lead c),
      job_title = Job_Title (lead c),
      company = Company (lead c),
      email = Email (lead c),
      phone = Phone (lead c),
      persona = classified.persona c,
      processed_at = toISOString_now w j\<rparr>"

definition webhook_callback :: "classified \<Rightarrow> js_error + unit" where
  "webhook_callback c = Inr ()"

fun webhook_step :: "env \<Rightarrow> classified event \<Rightarrow> webhook_result \<times> effect list
    \<Rightarrow> webhook_result \<times> effect list" where
  "webhook_step w (Started j c) (st, tr) = (st, tr @ [Post_issued j (build_payload w j c)])"
| "webhook_step w (Settled j c) (st, tr) =
     (case axios_post w (build_payload w j c) of
        Post_returns status \<Rightarrow>
          (if status = 200 \<or> status = 201
           then (st\<lparr>successCount := successCount st + 1\<rparr>, tr @ [Post_settled j])
           else (st\<lparr>failCount := failCount st + 1\<rparr>,
                 tr @ [Post_settled j, Console (Warn_webhook_status status (Email (lead c)))]))
      | Post_throws msg \<Rightarrow>
          (st\<lparr>failCount := failCount st + 1\<rparr>,
           tr @ [Post_settled j, Console (Err_webhook (Email (lead c)) msg)]))"

definition sendLeadsToWebhook ::
  "env \<Rightarrow> classified list \<Rightarrow> ((js_error + webhook_result) \<times> effect list) option" where
  "sendLeadsToWebhook w classifiedLeads =
     (case runWithConcurrency classifiedLeads CONCURRENCY webhook_callback (webhook_latency w) of
        None \<Rightarrow> None
      | Some (r, evs) \<Rightarrow>
          (case fold (webhook_step w) evs
                  (\<lparr>successCount = 0, failCount = 0\<rparr>,
                   [Console (Log_sending (length classifiedLeads) CONCURRENCY)]) of
             (st, tr) \<Rightarrow>
               (case r of
                  Inl e \<Rightarrow> Some (Inl e, tr)
                | Inr u \<Rightarrow>
                    Some (Inr st, tr @ [Console (Log_webhook (successCount st) (failCount st))]))))"

subsection \<open>main\<close>

text \<open>
  \<open>byPersona[persona]++\<close> on an object with the four keys \<open>Persona 1\<close> to \<open>Persona 4\<close>:
  on a key that the object does not have it stores \<open>NaN\<close> under that key.
\<close>

definition increment :: "(string \<rightharpoonup> jsnum) \<Rightarrow> string \<Rightarrow> (string \<rightharpoonup> jsnum)" where
  "increment byPersona key =
     byPersona(key \<mapsto>
       (case byPersona key of Some (Num n) \<Rightarrow> Num (n + 1) | Some NaN \<Rightarrow> NaN | None \<Rightarrow> NaN))"

definition count_personas :: "classified list \<Rightarrow> (string \<rightharpoonup> jsnum)" where
  "count_personas classifiedLeads =
     fold (\<lambda>c byPersona. increment byPersona (classified.persona c)) classifiedLeads
       [''Persona 1'' \<mapsto> Num 0, ''Persona 2'' \<mapsto> Num 0,
        ''Persona 3'' \<mapsto> Num 0, ''Persona 4'' \<mapsto> Num 0]"

text \<open>
  \<open>main\<close> ends in one of three ways: the \<open>return\<close> after the duplicate check, the end of
  the \<open>try\<close> block, and \<open>process.exit(1)\<close> in its \<open>catch\<close> block, which is where an
  exception of \<open>readCSV\<close> or a rejection of a stage arrives.
\<close>

datatype exit = Returned | Exit_1

definition fatal :: "effect list \<Rightarrow> js_error \<Rightarrow> (exit \<times> effect list) option" where
  "fatal tr e = Some (Exit_1, tr @ [Console (Err_fatal e)])"

definition main :: "env \<Rightarrow> (exit \<times> effect list) option" where
  "main w =
     (let t0 = [Console Log_rule, Console (Log_title ''LEAD CLASSIFICATION AUTOMATION''),
                Console Log_rule]
      in case readCSV w CSV_FILE_PATH of
           (Inl e, t1) \<Rightarrow> fatal (t0 @ t1) e
         | (Inr leads, t1) \<Rightarrow>
             (let t2 = [Console Log_rule, Console (Log_title ''PROCESSING LEADS''), Console Log_rule]
              in case filterDuplicates w leads of
                   (dedup, t3) \<Rightarrow>
                     if length (newLeads dedup) = 0
                     then Some (Returned, t0 @ t1 @ t2 @ t3 @ [Console Log_nothing_to_process])
                     else
                       (case classifyLeads w (newLeads dedup) of
                          None \<Rightarrow> None
                        | Some (Inl e, t4) \<Rightarrow> fatal (t0 @ t1 @ t2 @ t3 @ t4) e
                        | Some (Inr classifiedLeads, t4) \<Rightarrow>
                            (case addLeadsToDatabase w classifiedLeads of
                               (dbResult, t5) \<Rightarrow>
                                 (case sendLeadsToWebhook w classifiedLeads of
                                    None \<Rightarrow> None
                                  | Some (Inl e, t6) \<Rightarrow> fatal (t0 @ t1 @ t2 @ t3 @ t4 @ t5 @ t6) e
                                  | Some (Inr webhookResult, t6) \<Rightarrow>
                                      (let byPersona = count_personas classifiedLeads
                                       in Some (Returned,
                                            t0 @ t1 @ t2 @ t3 @ t4 @ t5 @ t6 @
                                            [Console Log_rule,
                                             Console (Log_title ''AUTOMATION COMPLETE - SUMMARY''),
                                             Console Log_rule,
                                             Console (Log_summary
                                               \<lparr>total_leads = length leads,
                                                successfully_processed = db_result.count dbResult,
                                                skipped_duplicates = duplicateCount dedup,
                                                failed_db_inserts =
                                                  (if success dbResult then 0
                                                   else length (newLeads dedup)),
                                                webhook_sent = successCount webhookResult,
                                                webhook_failed = failCount webhookResult,
                                                persona_1 = byPersona ''Persona 1'',
                                                persona_2 = byPersona ''Persona 2'',
                                                persona_3 = byPersona ''Persona 3'',
                                                persona_4 = byPersona ''Persona 4''\<rparr>),
                                             Console Log_finished])))))))"

section \<open>Notions used to state the properties\<close>

subsection \<open>Chunks, schedules and operations in flight\<close>

text \<open>
  The consecutive chunks of size \<open>K\<close> of a list (the last one may be shorter), the items
  of a list paired with their positions, and the events of a run that goes through the
  chunks one after the other: all the operations of a chunk are started, in order, and all of
  them settle, by increasing latency, before the next chunk is started.
\<close>

function chunks_of :: "nat \<Rightarrow> 'a list \<Rightarrow> 'a list list" where
  "chunks_of K xs = (if K = 0 \<or> xs = [] then [] else take K xs # chunks_of K (drop K xs))"
  by pat_completeness auto
termination
  by (relation "measure (\<lambda>(K, xs). length xs)") auto

declare chunks_of.simps [simp del]

definition tagged_from :: "nat \<Rightarrow> 'a list \<Rightarrow> (nat \<times> 'a) list" where
  "tagged_from i xs = zip [i ..< i + length xs] xs"

definition chunk_trace :: "(nat \<Rightarrow> nat) \<Rightarrow> (nat \<times> 'a) list \<Rightarrow> 'a event list" where
  "chunk_trace lat c =
     map (\<lambda>(j, x). Started j x) c @ map (\<lambda>(j, x). Settled j x) (sort_key (\<lambda>(j, x). lat j) c)"

definition schedule :: "nat \<Rightarrow> (nat \<Rightarrow> nat) \<Rightarrow> 'a list \<Rightarrow> 'a event list" where
  "schedule K lat items = concat (map (chunk_trace lat) (chunks_of K (tagged_from 0 items)))"

text \<open>
  The number of operations in flight after a sequence of events: those started minus those
  settled.
\<close>

fun in_flight :: "'a event list \<Rightarrow> int" where
  "in_flight [] = 0"
| "in_flight (Started j x # p) = in_flight p + 1"
| "in_flight (Settled j x # p) = in_flight p - 1"

text \<open>The operations started, and those settled, in the order of the events.\<close>

fun started_of :: "'a event list \<Rightarrow> (nat \<times> 'a) list" where
  "started_of [] = []"
| "started_of (Started j x # evs) = (j, x) # started_of evs"
| "started_of (Settled j x # evs) = started_of evs"

fun settled_of :: "'a event list \<Rightarrow> (nat \<times> 'a) list" where
  "settled_of [] = []"
| "settled_of (Started j x # evs) = settled_of evs"
| "settled_of (Settled j x # evs) = (j, x) # settled_of evs"

subsection \<open>Projections of a list of effects\<close>

text \<open>
  The calls to the external services (everything but the console lines), the summaries
  printed, and the lists of rows handed to the bulk insert.
\<close>

fun is_console :: "effect \<Rightarrow> bool" where
  "is_console (Console line) = True"
| "is_console e = False"

definition external_calls :: "effect list \<Rightarrow> effect list" where
  "external_calls tr = filter (\<lambda>e. \<not> is_console e) tr"

fun summaries :: "effect list \<Rightarrow> run_summary list" where
  "summaries [] = []"
| "summaries (Console (Log_summary s) # tr) = s # summaries tr"
| "summaries (e # tr) = summaries tr"

fun inserted :: "effect list \<Rightarrow> db_row list list" where
  "inserted [] = []"
| "inserted (Insert_issued rows # tr) = rows # inserted tr"
| "inserted (e # tr) = inserted tr"

text \<open>The deliveries issued: the position of the record and the payload posted.\<close>

fun posts :: "effect list \<Rightarrow> (nat \<times> payload) list" where
  "posts [] = []"
| "posts (Post_issued j p # tr) = (j, p) # posts tr"
| "posts (e # tr) = posts tr"

subsection \<open>The stages of a run\<close>

text \<open>
  The bulk existence query fails when the call throws, when it returns an error, or when it
  returns neither an error nor data.
\<close>

fun query_failed :: "select_outcome \<Rightarrow> bool" where
  "query_failed (Select_throws msg) = True"
| "query_failed (Select_returns data (Some msg)) = True"
| "query_failed (Select_returns None None) = True"
| "query_failed (Select_returns (Some rows) None) = False"

text \<open>The bulk insert succeeds when the call returns without an error.\<close>

fun insert_ok :: "insert_outcome \<Rightarrow> bool" where
  "insert_ok (Insert_returns None) = True"
| "insert_ok (Insert_returns (Some msg)) = False"
| "insert_ok (Insert_throws msg) = False"

text \<open>The four tokens of the enumeration of categories.\<close>

definition personas :: "string list" where
  "personas = [''Persona 1'', ''Persona 2'', ''Persona 3'', ''Persona 4'']"

text \<open>The classified records that the classification stage hands on, in the order of its input.\<close>

definition classified_of :: "env \<Rightarrow> lead list \<Rightarrow> classified list" where
  "classified_of w leads = map (\<lambda>ld. \<lparr>lead = ld, persona = fst (classifyLead w ld)\<rparr>) leads"

text \<open>
  The calls of the classification stage and of the delivery stage, event by event.
\<close>

fun create_call :: "lead event \<Rightarrow> effect" where
  "create_call (Started j ld) = Create_issued j (build_prompt ld)"
| "create_call (Settled j ld) = Create_settled j"

fun post_call :: "env \<Rightarrow> classified event \<Rightarrow> effect" where
  "post_call w (Started j c) = Post_issued j (build_payload w j c)"
| "post_call w (Settled j c) = Post_settled j"

text \<open>
  A delivery is a success when the webhook answers with status 200 or 201; any other status,
  and a call that throws, is a failure. The console line of a failed delivery carries the
  email of the record.
\<close>

definition delivered :: "env \<Rightarrow> nat \<times> classified \<Rightarrow> bool" where
  "delivered w jc =
     (case axios_post w (build_payload w (fst jc) (snd jc)) of
        Post_returns status \<Rightarrow> status = 200 \<or> status = 201
      | Post_throws msg \<Rightarrow> False)"

definition failure_line :: "env \<Rightarrow> nat \<times> classified \<Rightarrow> console_line" where
  "failure_line w jc =
     (case axios_post w (build_payload w (fst jc) (snd jc)) of
        Post_returns status \<Rightarrow> Warn_webhook_status status (Email (lead (snd jc)))
      | Post_throws msg \<Rightarrow> Err_webhook (Email (lead (snd jc))) msg)"

fun webhook_effects :: "env \<Rightarrow> classified event \<Rightarrow> effect list" where
  "webhook_effects w (Started j c) = [Post_issued j (build_payload w j c)]"
| "webhook_effects w (Settled j c) =
     (if delivered w (j, c) then [Post_settled j]
      else [Post_settled j, Console (failure_line w (j, c))])"

text \<open>
  The summary of a run on a batch that is not all duplicates: the size of the batch, the
  number of rows persisted (all the new leads or none), the number of duplicates, the number
  of new leads whose insert failed, the deliveries that succeeded and failed, and the count
  of each persona among the classified records.
\<close>

definition summary_for :: "env \<Rightarrow> lead list \<Rightarrow> run_summary" where
  "summary_for w leads =
     (let dedup = fst (filterDuplicates w leads);
          cls = classified_of w (newLeads dedup);
          ok = insert_ok (insert_rows w (map to_row cls))
      in \<lparr>total_leads = length leads,
          successfully_processed = (if ok then length cls else 0),
          skipped_duplicates = duplicateCount dedup,
          failed_db_inserts = (if ok then 0 else length cls),
          webhook_sent = length (filter (delivered w) (tagged_from 0 cls)),
          webhook_failed = length (filter (\<lambda>jc. \<not> delivered w jc) (tagged_from 0 cls)),
          persona_1 = count_personas cls ''Persona 1'',
          persona_2 = count_personas cls ''Persona 2'',
          persona_3 = count_personas cls ''Persona 3'',
          persona_4 = count_personas cls ''Persona 4''\<rparr>)"

text \<open>What a run prints as its summary: nothing when it prints none.\<close>

fun summary_of_run :: "(exit \<times> effect list) option \<Rightarrow> run_summary list" where
  "summary_of_run None = []"
| "summary_of_run (Some (ex, tr)) = summaries tr"

subsection \<open>Sample inputs\<close>

definition lead1 :: lead where
  "lead1 = \<lparr>First_Name = ''Ana'', Last_Name = ''Ruiz'', Job_Title = ''Owner'',
            Company = ''Bar Uno'', Email = ''ana@uno.example'', Phone = ''555-0001''\<rparr>"

definition lead2 :: lead where
  "lead2 = \<lparr>First_Name = ''Ben'', Last_Name = ''Diaz'', Job_Title = ''Bar Manager'',
            Company = ''Bar Dos'', Email = ''ben@dos.example'', Phone = ''555-0002''\<rparr>"

definition lead3 :: lead where
  "lead3 = \<lparr>First_Name = ''Cris'', Last_Name = ''Soto'', Job_Title = ''Purchasing Manager'',
            Company = ''Hotel Tres'', Email = ''cris@tres.example'', Phone = ''555-0003''\<rparr>"

text \<open>A second lead with the email of \<open>lead1\<close>.\<close>

definition lead1b :: lead where
  "lead1b = \<lparr>First_Name = ''Ana Maria'', Last_Name = ''Ruiz'', Job_Title = ''Founder'',
             Company = ''Bar Uno'', Email = ''ana@uno.example'', Phone = ''555-0009''\<rparr>"

text \<open>
  Three leads, none of them in the store; the service answers with the persona of each job
  title; the insert succeeds; the webhook answers 200, except for the second lead, where it
  answers 500, which \<open>axios\<close> with its default settings turns into an exception. The
  classifications settle in the reverse of the order in which they start.
\<close>

definition world1 :: env where
  "world1 =
     \<lparr>readFileSync_parse = (\<lambda>p. Csv_records [lead1, lead2, lead3]),
      select_email_in = (\<lambda>emails. Select_returns (Some []) None),
      messages_create = (\<lambda>(f, l, t, c).
         if t = ''Owner'' then Create_returns [Text_block ''Persona 1'']
         else if t = ''Bar Manager'' then Create_returns [Text_block ''Persona 2'']
         else Create_returns [Text_block ''Persona 3'']),
      insert_rows = (\<lambda>rows. Insert_returns None),
      axios_post = (\<lambda>p. if email p = ''ben@dos.example''
                        then Post_throws ''Request failed with status code 500''
                        else Post_returns 200),
      toISOString_now = (\<lambda>j. ''2025-01-01T00:00:00.000Z''),
      classify_latency = (\<lambda>j. 3 - j),
      webhook_latency = (\<lambda>j. 0)\<rparr>"

text \<open>The same, with a bulk insert that fails.\<close>

definition world_insert_fails :: env where
  "world_insert_fails =
     world1\<lparr>insert_rows := (\<lambda>rows. Insert_returns (Some ''duplicate key value''))\<rparr>"

text \<open>The same as \<open>world1\<close>, with a store that already holds every email it is asked for.\<close>

definition world_all_known :: env where
  "world_all_known = world1\<lparr>select_email_in := (\<lambda>emails. Select_returns (Some emails) None)\<rparr>"

text \<open>The same as \<open>world1\<close>, with a batch in which two leads share an email.\<close>

definition world_shared_email :: env where
  "world_shared_email = world1\<lparr>readFileSync_parse := (\<lambda>p. Csv_records [lead1, lead2, lead1b])\<rparr>"

text \<open>The same as \<open>world1\<close>, with a service that answers with a sentence.\<close>

definition world_verbose :: env where
  "world_verbose =
     world1\<lparr>messages_create := (\<lambda>q. Create_returns [Text_block ''Persona 2 - Beverage Director''])\<rparr>"

text \<open>An operation on numbers that is rejected on the item 1 and multiplies the others by ten.\<close>

definition rejects_one :: "nat \<Rightarrow> string + nat" where
  "rejects_one x = (if x = 1 then Inl ''boom'' else Inr (x * 10))"

section \<open>Auxiliary facts\<close>

subsection \<open>The loop of the limiter when every operation is fulfilled\<close>

lemma fulfilled_append: "fulfilled (rs @ ss) = fulfilled rs @ fulfilled ss"
  by (induction rs rule: fulfilled.induct) simp_all

lemma fulfilled_Inr: "fulfilled (map (\<lambda>x. Inr (op x)) xs) = map op xs"
  by (induction xs) simp_all

lemma fulfilled_all:
  "\<forall>x\<in>set xs. \<exists>v. fn x = Inr v \<Longrightarrow> map Inr (fulfilled (map fn xs)) = map fn xs"
  by (induction xs) auto

lemma first_rejection_None:
  "first_rejection fn ys = None \<longleftrightarrow> (\<forall>(j, x)\<in>set ys. \<exists>v. fn x = Inr v)"
  by (induction fn ys rule: first_rejection.induct) (auto split: sum.splits)

lemma tagged_from_take: "take K (tagged_from i xs) = tagged_from i (take K xs)"
  by (simp add: tagged_from_def take_zip take_upt min_def) 

lemma tagged_from_drop: "drop K (tagged_from i xs) = tagged_from (i + K) (drop K xs)"
proof (cases "K \<le> length xs")
  case True
  then show ?thesis by (simp add: tagged_from_def drop_zip drop_upt)
next
  case False
  then show ?thesis by (simp add: tagged_from_def)
qed

lemma tagged_from_Nil: "tagged_from i xs = [] \<longleftrightarrow> xs = []"
  by (cases xs) (simp_all add: tagged_from_def upt_conv_Cons)

lemma rwc_loop_fulfilled:
  assumes K: "1 \<le> K"
  shows "\<forall>x\<in>set (drop i items). \<exists>v. fn x = Inr v \<Longrightarrow>
         rwc_loop items K fn lat i results tr =
           Some (Inr (results @ fulfilled (map fn (drop i items))),
                 tr @ concat (map (chunk_trace lat) (chunks_of K (tagged_from i (drop i items)))))"
proof (induction "length items - i" arbitrary: i results tr rule: less_induct)
  case less
  show ?case
  proof (cases "i < length items")
    case False
    then show ?thesis
      by (subst rwc_loop.simps) (simp add: chunks_of.simps tagged_from_def)
  next
    case True
    let ?rest = "drop i items"
    let ?batch = "slice items i (i + K)"
    have batch: "?batch = take K ?rest" by (simp add: slice_def)
    have split: "?rest = ?batch @ drop (i + K) items"
      unfolding batch using append_take_drop_id [of K ?rest] by (simp add: add.commute)
    have ok_batch: "\<forall>x\<in>set ?batch. \<exists>v. fn x = Inr v"
      using less.prems batch by (metis in_set_takeD)
    have ok_rest: "\<forall>x\<in>set (drop (i + K) items). \<exists>v. fn x = Inr v"
      using less.prems by (metis add.commute drop_drop in_set_dropD)
    have tagged: "zip [i ..< i + length ?batch] ?batch = tagged_from i ?batch"
      by (simp add: tagged_from_def)
    have none: "first_rejection fn (sort_key (\<lambda>(j, x). lat j) (tagged_from i ?batch)) = None"
      unfolding first_rejection_None using ok_batch
      by (auto simp: tagged_from_def dest: set_zip_rightD)
    have IH: "rwc_loop items K fn lat (i + K) rs t =
           Some (Inr (rs @ fulfilled (map fn (drop (i + K) items))),
                 t @ concat (map (chunk_trace lat) (chunks_of K (tagged_from (i + K) (drop (i + K) items)))))"
      for rs t
      using less.hyps [of "i + K" rs t] True K ok_rest by simp
    have chunks: "chunks_of K (tagged_from i ?rest) =
        tagged_from i ?batch # chunks_of K (tagged_from (i + K) (drop (i + K) items))"
      using True K
      by (subst chunks_of.simps)
         (simp add: tagged_from_Nil tagged_from_take tagged_from_drop batch add.commute [of K i])
    have res: "fulfilled (map fn ?rest) = fulfilled (map fn ?batch) @ fulfilled (map fn (drop (i + K) items))"
      by (subst split) (simp only: map_append fulfilled_append)
    show ?thesis
      apply (subst rwc_loop.simps)
      apply (simp only: True if_True Let_def tagged none option.case IH chunks res)
      apply (simp add: chunk_trace_def)
      done
  qed
qed

subsection \<open>Chunks and operations in flight\<close>

lemma in_flight_append: "in_flight (p @ q) = in_flight p + in_flight q"
  by (induction p rule: in_flight.induct) simp_all

lemma in_flight_started: "in_flight (map (\<lambda>(j, x). Started j x) c) = int (length c)"
  by (induction c) auto

lemma in_flight_settled: "in_flight (map (\<lambda>(j, x). Settled j x) c) = - int (length c)"
  by (induction c) auto

lemma chunk_trace_balanced: "in_flight (chunk_trace lat c) = 0"
  by (simp add: chunk_trace_def in_flight_append in_flight_started in_flight_settled)

lemma chunk_trace_prefix:
  "0 \<le> in_flight (take n (chunk_trace lat c)) \<and> in_flight (take n (chunk_trace lat c)) \<le> int (length c)"
  by (simp add: chunk_trace_def in_flight_append take_map in_flight_started in_flight_settled min_def)

lemma trace_in_flight:
  "\<forall>c\<in>set cs. length c \<le> K \<Longrightarrow>
   0 \<le> in_flight (take n (concat (map (chunk_trace lat) cs))) \<and>
   in_flight (take n (concat (map (chunk_trace lat) cs))) \<le> int K"
proof (induction cs arbitrary: n)
  case Nil
  then show ?case by simp
next
  case (Cons c cs)
  have c: "length c \<le> K" using Cons.prems by simp
  show ?case
  proof (cases "n \<le> length (chunk_trace lat c)")
    case True
    then show ?thesis using chunk_trace_prefix [of n lat c] c by simp
  next
    case False
    then have "take n (chunk_trace lat c) = chunk_trace lat c" by simp
    then show ?thesis
      using Cons.IH [of "n - length (chunk_trace lat c)"] Cons.prems
      by (simp add: in_flight_append chunk_trace_balanced)
  qed
qed

lemma chunks_of_length:
  "c \<in> set (chunks_of K xs) \<Longrightarrow> 1 \<le> length c \<and> length c \<le> K"
proof (induction K xs rule: chunks_of.induct)
  case (1 K xs)
  show ?case
  proof (cases "K = 0 \<or> xs = []")
    case True
    then show ?thesis using "1.prems" by (simp add: chunks_of.simps)
  next
    case False
    then have "c = take K xs \<or> c \<in> set (chunks_of K (drop K xs))"
      using "1.prems" by (subst (asm) chunks_of.simps) simp
    then show ?thesis
    proof
      assume "c = take K xs"
      then show ?thesis using False by (cases xs) auto
    next
      assume "c \<in> set (chunks_of K (drop K xs))"
      then show ?thesis using "1.IH" False by simp
    qed
  qed
qed

lemma concat_chunks_of: "1 \<le> K \<Longrightarrow> concat (chunks_of K xs) = xs"
proof (induction K xs rule: chunks_of.induct)
  case (1 K xs)
  show ?case
  proof (cases "xs = []")
    case True
    then show ?thesis by (simp add: chunks_of.simps)
  next
    case False
    then show ?thesis using "1.IH" "1.prems" by (subst chunks_of.simps) simp
  qed
qed

lemma chunks_of_nth:
  "k < length (chunks_of K xs) \<Longrightarrow> chunks_of K xs ! k = take K (drop (k * K) xs)"
proof (induction K xs arbitrary: k rule: chunks_of.induct)
  case (1 K xs)
  show ?case
  proof (cases "K = 0 \<or> xs = []")
    case True
    then show ?thesis using "1.prems" by (simp add: chunks_of.simps)
  next
    case False
    then have eq: "chunks_of K xs = take K xs # chunks_of K (drop K xs)"
      by (subst chunks_of.simps) simp
    show ?thesis
    proof (cases k)
      case 0
      then show ?thesis by (simp add: eq)
    next
      case (Suc k')
      then have "k' < length (chunks_of K (drop K xs))" using "1.prems" eq by simp
      then have "chunks_of K (drop K xs) ! k' = take K (drop (k' * K) (drop K xs))"
        using "1.IH" False by simp
      then show ?thesis by (simp add: eq Suc add.commute)
    qed
  qed
qed

subsection \<open>Started and settled operations of a schedule\<close>

lemma rwc_fulfilled:
  fixes items :: "'a list" and op :: "'a \<Rightarrow> 'b"
  assumes "1 \<le> K"
  shows "runWithConcurrency items K (\<lambda>x. Inr (op x) :: 'e + 'b) lat =
           Some (Inr (map op items), schedule K lat items)"
  using rwc_loop_fulfilled [OF assms, of 0 items "\<lambda>x. Inr (op x) :: 'e + 'b" lat "[]" "[]"]
  by (simp add: runWithConcurrency_def schedule_def fulfilled_Inr)

lemma started_of_append: "started_of (p @ q) = started_of p @ started_of q"
  by (induction p rule: started_of.induct) simp_all

lemma settled_of_append: "settled_of (p @ q) = settled_of p @ settled_of q"
  by (induction p rule: settled_of.induct) simp_all

lemma started_of_Started: "started_of (map (\<lambda>(j, x). Started j x) c) = c"
  by (induction c) auto

lemma started_of_Settled: "started_of (map (\<lambda>(j, x). Settled j x) c) = []"
  by (induction c) auto

lemma settled_of_Started: "settled_of (map (\<lambda>(j, x). Started j x) c) = []"
  by (induction c) auto

lemma settled_of_Settled: "settled_of (map (\<lambda>(j, x). Settled j x) c) = c"
  by (induction c) auto

lemma started_of_chunk_trace: "started_of (chunk_trace lat c) = c"
  by (simp add: chunk_trace_def started_of_append started_of_Started started_of_Settled)

lemma settled_of_chunk_trace: "settled_of (chunk_trace lat c) = sort_key (\<lambda>(j, x). lat j) c"
  by (simp add: chunk_trace_def settled_of_append settled_of_Started settled_of_Settled)

lemma started_of_concat: "started_of (concat (map (chunk_trace lat) cs)) = concat cs"
  by (induction cs) (simp_all add: started_of_append started_of_chunk_trace)

lemma settled_of_concat:
  "settled_of (concat (map (chunk_trace lat) cs)) = concat (map (sort_key (\<lambda>(j, x). lat j)) cs)"
  by (induction cs) (simp_all add: settled_of_append settled_of_chunk_trace)

lemma started_of_schedule: "1 \<le> K \<Longrightarrow> started_of (schedule K lat items) = tagged_from 0 items"
  by (simp add: schedule_def started_of_concat concat_chunks_of)

lemma filter_settled_length:
  "length (filter P (concat (map (sort_key f) cs))) = length (filter P (concat cs))"
  by (induction cs) (simp_all add: filter_sort)

lemma set_settled: "set (concat (map (sort_key f) cs)) = set (concat cs)"
  by (induction cs) simp_all

lemma settled_of_schedule_count:
  "1 \<le> K \<Longrightarrow> length (filter P (settled_of (schedule K lat items))) = length (filter P (tagged_from 0 items))"
  by (simp add: schedule_def settled_of_concat filter_settled_length concat_chunks_of)

lemma set_settled_of_schedule:
  "1 \<le> K \<Longrightarrow> set (settled_of (schedule K lat items)) = set (tagged_from 0 items)"
  by (simp only: schedule_def settled_of_concat set_settled concat_chunks_of)

lemma classify_callback_eq:
  "classify_callback w = (\<lambda>ld. Inr \<lparr>lead = ld, persona = fst (classifyLead w ld)\<rparr>)"
  by (rule ext) (simp add: classify_callback_def)

lemma classifyLeads_eq:
  "classifyLeads w leads =
     Some (Inr (map (\<lambda>ld. \<lparr>lead = ld, persona = fst (classifyLead w ld)\<rparr>) leads),
           Console (Log_classifying (length leads) CONCURRENCY)
           # concat (map (classify_effects w) (schedule CONCURRENCY (classify_latency w) leads))
           @ [Console (Log_all_classified (length leads))])"
  unfolding classifyLeads_def classify_callback_eq
  by (subst rwc_fulfilled) (simp_all add: CONCURRENCY_def)

lemma webhook_callback_eq: "webhook_callback = (\<lambda>c. Inr ())"
  by (rule ext) (simp add: webhook_callback_def)

lemma sendLeadsToWebhook_eq:
  "sendLeadsToWebhook w cls =
     (case fold (webhook_step w) (schedule CONCURRENCY (webhook_latency w) cls)
             (\<lparr>successCount = 0, failCount = 0\<rparr>,
              [Console (Log_sending (length cls) CONCURRENCY)]) of
        (st, tr) \<Rightarrow> Some (Inr st, tr @ [Console (Log_webhook (successCount st) (failCount st))]))"
  unfolding sendLeadsToWebhook_def webhook_callback_eq
  by (subst rwc_fulfilled) (simp_all add: CONCURRENCY_def split: prod.splits)

subsection \<open>The stages\<close>

lemma dedup_loop_eq:
  "dedup_loop S leads nl dc tr =
     (nl @ filter (\<lambda>ld. Email ld \<notin> S) leads,
      dc + length (filter (\<lambda>ld. Email ld \<in> S) leads),
      tr @ map (\<lambda>ld. Console (Log_skipped (First_Name ld) (Last_Name ld)))
             (filter (\<lambda>ld. Email ld \<in> S) leads))"
  by (induction leads arbitrary: nl dc tr) simp_all

lemma external_calls_append: "external_calls (p @ q) = external_calls p @ external_calls q"
  by (simp add: external_calls_def)

lemma summaries_append: "summaries (p @ q) = summaries p @ summaries q"
  by (induction p rule: summaries.induct) simp_all

lemma inserted_append: "inserted (p @ q) = inserted p @ inserted q"
  by (induction p rule: inserted.induct) simp_all

lemma external_calls_Console: "external_calls (map Console ls) = []"
  by (induction ls) (simp_all add: external_calls_def)

lemma webhook_fold:
  "fold (webhook_step w) evs (st, tr) =
     (\<lparr>successCount = successCount st + length (filter (delivered w) (settled_of evs)),
       failCount = failCount st + length (filter (\<lambda>jc. \<not> delivered w jc) (settled_of evs))\<rparr>,
      tr @ concat (map (webhook_effects w) evs))"
proof (induction evs arbitrary: st tr)
  case Nil
  show ?case by simp
next
  case (Cons ev evs)
  show ?case
  proof (cases ev)
    case (Started j c)
    then show ?thesis by (simp add: Cons.IH)
  next
    case (Settled j c)
    then show ?thesis
      by (simp add: Cons.IH delivered_def failure_line_def split: post_outcome.splits)
  qed
qed

lemma filterDuplicates_ok:
  "select_email_in w (map Email leads) = Select_returns (Some rows) None \<Longrightarrow>
   filterDuplicates w leads =
     (\<lparr>newLeads = filter (\<lambda>ld. Email ld \<notin> set rows) leads,
       duplicateCount = length (filter (\<lambda>ld. Email ld \<in> set rows) leads)\<rparr>,
      [Console Log_checking_duplicates, Select_issued (map Email leads)]
      @ map (\<lambda>ld. Console (Log_skipped (First_Name ld) (Last_Name ld)))
            (filter (\<lambda>ld. Email ld \<in> set rows) leads)
      @ [Console (Log_found (length (filter (\<lambda>ld. Email ld \<in> set rows) leads))
                            (length (filter (\<lambda>ld. Email ld \<notin> set rows) leads)))])"
  by (simp add: filterDuplicates_def dedup_loop_eq)

lemma filterDuplicates_failed:
  "query_failed (select_email_in w (map Email leads)) \<Longrightarrow>
   fst (filterDuplicates w leads) = \<lparr>newLeads = leads, duplicateCount = 0\<rparr> \<and>
   external_calls (snd (filterDuplicates w leads)) = [Select_issued (map Email leads)] \<and>
   summaries (snd (filterDuplicates w leads)) = [] \<and>
   inserted (snd (filterDuplicates w leads)) = []"
  by (cases "select_email_in w (map Email leads)" rule: query_failed.cases)
     (simp_all add: filterDuplicates_def external_calls_def)

lemma projections_skipped:
  "external_calls (map (\<lambda>ld. Console (f ld)) xs) = [] \<and>
   summaries (map (\<lambda>ld. Console (Log_skipped (g ld) (h ld))) xs) = [] \<and>
   inserted (map (\<lambda>ld. Console (f ld)) xs) = []"
  by (induction xs) (simp_all add: external_calls_def)

lemma filterDuplicates_projections:
  "external_calls (snd (filterDuplicates w leads)) = [Select_issued (map Email leads)] \<and>
   summaries (snd (filterDuplicates w leads)) = [] \<and>
   inserted (snd (filterDuplicates w leads)) = []"
proof (cases "query_failed (select_email_in w (map Email leads))")
  case True
  then show ?thesis by (simp add: filterDuplicates_failed)
next
  case False
  then obtain rows where "select_email_in w (map Email leads) = Select_returns (Some rows) None"
    by (cases "select_email_in w (map Email leads)" rule: query_failed.cases) simp_all
  then show ?thesis
    by (simp add: filterDuplicates_ok external_calls_append summaries_append inserted_append
        projections_skipped)
       (simp add: external_calls_def)
qed

lemma readCSV_ok:
  "readFileSync_parse w p = Csv_records leads \<Longrightarrow>
   readCSV w p = (Inr leads, [Console Log_reading_csv, Console (Log_read_ok (length leads))])"
  by (simp add: readCSV_def)

lemma classifyLeads_run:
  "classifyLeads w leads =
     Some (Inr (classified_of w leads),
           Console (Log_classifying (length leads) CONCURRENCY)
           # concat (map (classify_effects w) (schedule CONCURRENCY (classify_latency w) leads))
           @ [Console (Log_all_classified (length leads))])"
  by (simp add: classifyLeads_eq classified_of_def)

lemma external_calls_Nil: "external_calls [] = []"
  by (simp add: external_calls_def)

lemma external_calls_Cons:
  "external_calls (e # tr) = (if is_console e then external_calls tr else e # external_calls tr)"
  by (simp add: external_calls_def)

lemma summaries_Console:
  "\<forall>l\<in>set ls. \<forall>s. l \<noteq> Log_summary s \<Longrightarrow> summaries (map Console ls) = []"
proof (induction ls)
  case Nil
  show ?case by simp
next
  case (Cons l ls)
  then show ?case by (cases l) simp_all
qed

lemma inserted_Console: "inserted (map Console ls) = []"
  by (induction ls) simp_all

lemma classifyLead_lines: "\<forall>l\<in>set (snd (classifyLead w ld)). \<forall>s. l \<noteq> Log_summary s"
  by (simp add: classifyLead_def Let_def
      split: create_outcome.splits list.splits content_block.splits)

lemma classify_effects_event:
  "external_calls (classify_effects w ev) = [create_call ev] \<and>
   summaries (classify_effects w ev) = [] \<and>
   inserted (classify_effects w ev) = []"
proof (cases ev)
  case (Started j ld)
  then show ?thesis by (simp add: external_calls_Cons external_calls_Nil)
next
  case (Settled j ld)
  then show ?thesis
    by (simp add: external_calls_Cons external_calls_Nil external_calls_append
        external_calls_Console summaries_append inserted_append inserted_Console
        summaries_Console [OF classifyLead_lines])
qed

lemma classify_effects_projections:
  "external_calls (concat (map (classify_effects w) evs)) = map create_call evs \<and>
   summaries (concat (map (classify_effects w) evs)) = [] \<and>
   inserted (concat (map (classify_effects w) evs)) = []"
  by (induction evs)
     (simp_all add: external_calls_Nil external_calls_append summaries_append inserted_append
        classify_effects_event)

lemma addLeadsToDatabase_run:
  "fst (addLeadsToDatabase w cls) =
     (if insert_ok (insert_rows w (map to_row cls))
      then \<lparr>success = True, count = length cls\<rparr> else \<lparr>success = False, count = 0\<rparr>) \<and>
   external_calls (snd (addLeadsToDatabase w cls)) = [Insert_issued (map to_row cls)] \<and>
   summaries (snd (addLeadsToDatabase w cls)) = [] \<and>
   inserted (snd (addLeadsToDatabase w cls)) = [map to_row cls]"
  by (cases "insert_rows w (map to_row cls)" rule: insert_ok.cases)
     (simp_all add: addLeadsToDatabase_def external_calls_Cons external_calls_Nil)

lemma sendLeadsToWebhook_run:
  "sendLeadsToWebhook w cls =
     Some (Inr \<lparr>successCount = length (filter (delivered w) (tagged_from 0 cls)),
                 failCount = length (filter (\<lambda>jc. \<not> delivered w jc) (tagged_from 0 cls))\<rparr>,
           Console (Log_sending (length cls) CONCURRENCY)
           # concat (map (webhook_effects w) (schedule CONCURRENCY (webhook_latency w) cls))
           @ [Console (Log_webhook (length (filter (delivered w) (tagged_from 0 cls)))
                          (length (filter (\<lambda>jc. \<not> delivered w jc) (tagged_from 0 cls))))])"
  by (simp add: sendLeadsToWebhook_eq webhook_fold settled_of_schedule_count CONCURRENCY_def)

lemma webhook_effects_event:
  "external_calls (webhook_effects w ev) = [post_call w ev] \<and>
   summaries (webhook_effects w ev) = [] \<and>
   inserted (webhook_effects w ev) = []"
  by (cases ev)
     (simp_all add: external_calls_Cons external_calls_Nil failure_line_def
        split: post_outcome.splits)

lemma webhook_effects_projections:
  "external_calls (concat (map (webhook_effects w) evs)) = map (post_call w) evs \<and>
   summaries (concat (map (webhook_effects w) evs)) = [] \<and>
   inserted (concat (map (webhook_effects w) evs)) = []"
  by (induction evs)
     (simp_all add: external_calls_Nil external_calls_append summaries_append inserted_append
        webhook_effects_event)

lemma main_run:
  assumes csv: "readFileSync_parse w CSV_FILE_PATH = Csv_records leads"
    and new: "newLeads (fst (filterDuplicates w leads)) \<noteq> []"
  shows "\<exists>tr. main w = Some (Returned, tr)
     \<and> external_calls tr =
         Select_issued (map Email leads)
         # map create_call (schedule CONCURRENCY (classify_latency w) (newLeads (fst (filterDuplicates w leads))))
         @ Insert_issued (map to_row (classified_of w (newLeads (fst (filterDuplicates w leads)))))
         # map (post_call w) (schedule CONCURRENCY (webhook_latency w)
                               (classified_of w (newLeads (fst (filterDuplicates w leads)))))
     \<and> summaries tr = [summary_for w leads]
     \<and> inserted tr = [map to_row (classified_of w (newLeads (fst (filterDuplicates w leads))))]"
proof -
  let ?nl = "newLeads (fst (filterDuplicates w leads))"
  let ?cls = "classified_of w ?nl"
  obtain dedup t3 where fd: "filterDuplicates w leads = (dedup, t3)"
    by (cases "filterDuplicates w leads")
  obtain dbResult t5 where db: "addLeadsToDatabase w (classified_of w (newLeads dedup)) = (dbResult, t5)"
    by (cases "addLeadsToDatabase w (classified_of w (newLeads dedup))")
  have p3: "external_calls t3 = [Select_issued (map Email leads)] \<and> summaries t3 = [] \<and> inserted t3 = []"
    using filterDuplicates_projections [of w leads] fd by simp
  have p5: "dbResult = (if insert_ok (insert_rows w (map to_row (classified_of w (newLeads dedup))))
             then \<lparr>success = True, count = length (classified_of w (newLeads dedup))\<rparr>
             else \<lparr>success = False, count = 0\<rparr>) \<and>
            external_calls t5 = [Insert_issued (map to_row (classified_of w (newLeads dedup)))] \<and>
            summaries t5 = [] \<and> inserted t5 = [map to_row (classified_of w (newLeads dedup))]"
    using addLeadsToDatabase_run [of w "classified_of w (newLeads dedup)"] db by simp
  have ne: "newLeads dedup \<noteq> []" using new fd by simp
  have len: "length (classified_of w (newLeads dedup)) = length (newLeads dedup)"
    by (simp add: classified_of_def)
  show ?thesis
    using ne p3 p5
    apply (simp add: main_def readCSV_ok [OF csv] fd classifyLeads_run db sendLeadsToWebhook_run
        Let_def)
    apply (simp add: external_calls_append summaries_append inserted_append
        external_calls_Cons external_calls_Nil
        classify_effects_projections webhook_effects_projections)
    apply (simp add: summary_for_def fd Let_def len)
    done
qed

lemma started_in_set: "(j, x) \<in> set (started_of evs) \<longleftrightarrow> Started j x \<in> set evs"
  by (induction evs rule: started_of.induct) auto

lemma settled_in_set: "(j, x) \<in> set (settled_of evs) \<longleftrightarrow> Settled j x \<in> set evs"
  by (induction evs rule: settled_of.induct) auto

lemma tagged_from_nth: "j < length xs \<Longrightarrow> (j, xs ! j) \<in> set (tagged_from 0 xs)"
  by (auto simp: tagged_from_def in_set_zip intro!: exI [of _ j])

lemma schedule_covers:
  assumes "1 \<le> K" and "j < length xs"
  shows "Started j (xs ! j) \<in> set (schedule K lat xs) \<and> Settled j (xs ! j) \<in> set (schedule K lat xs)"
  using tagged_from_nth [OF assms(2)] started_of_schedule [OF assms(1), of lat xs]
    set_settled_of_schedule [OF assms(1), of lat xs]
  by (metis started_in_set settled_in_set)

lemma env_insert_rows_irrelevant:
  "filterDuplicates (w\<lparr>insert_rows := ins\<rparr>) leads = filterDuplicates w leads \<and>
   classified_of (w\<lparr>insert_rows := ins\<rparr>) nl = classified_of w nl"
  by (simp add: filterDuplicates_def classified_of_def classifyLead_def)

lemma summary_of_main:
  assumes "readFileSync_parse w CSV_FILE_PATH = Csv_records leads"
    and "newLeads (fst (filterDuplicates w leads)) \<noteq> []"
  shows "summary_of_run (main w) = [summary_for w leads]"
  using main_run [OF assms] by auto

lemma posts_append: "posts (p @ q) = posts p @ posts q"
  by (induction p rule: posts.induct) simp_all

lemma posts_webhook_effects:
  "posts (concat (map (webhook_effects w) evs))
     = map (\<lambda>(j, c). (j, build_payload w j c)) (started_of evs)"
proof (induction evs)
  case Nil
  show ?case by simp
next
  case (Cons ev evs)
  then show ?case by (cases ev) (simp_all add: posts_append)
qed

lemma failure_logged:
  "Settled j c \<in> set evs \<Longrightarrow> \<not> delivered w (j, c) \<Longrightarrow>
   Console (failure_line w (j, c)) \<in> set (concat (map (webhook_effects w) evs))"
  by (induction evs) auto

lemma env_axios_post_irrelevant:
  "addLeadsToDatabase (w\<lparr>axios_post := p\<rparr>) cls = addLeadsToDatabase w cls"
  by (simp add: addLeadsToDatabase_def)

subsection \<open>The loop of the limiter when an operation is rejected\<close>

lemma first_rejection_Some:
  "first_rejection fn ys = Some (js, e) \<Longrightarrow> \<exists>(j, x)\<in>set ys. fn x = Inl e"
  by (induction fn ys arbitrary: js rule: first_rejection.induct)
     (auto split: sum.splits)

lemma in_batch:
  "x \<in> set (take K (drop i items)) \<Longrightarrow> \<exists>j. i \<le> j \<and> j < i + K \<and> j < length items \<and> x = items ! j"
proof -
  assume "x \<in> set (take K (drop i items))"
  then obtain n where n: "n < length (take K (drop i items))" "x = take K (drop i items) ! n"
    by (auto simp: in_set_conv_nth)
  then have "i \<le> length items" and "n < length items - i" and "n < K"
    by auto
  with n have "i \<le> i + n \<and> i + n < i + K \<and> i + n < length items \<and> x = items ! (i + n)"
    by simp
  then show ?thesis by blast
qed

lemma tagged_from_member:
  "i \<le> r \<Longrightarrow> r < i + length xs \<Longrightarrow> (r, xs ! (r - i)) \<in> set (tagged_from i xs)"
  by (auto simp: tagged_from_def in_set_zip intro!: exI [of _ "r - i"])

lemma rwc_loop_rejects:
  assumes K: "1 \<le> K"
  shows "i \<le> r \<Longrightarrow> r < length items \<Longrightarrow> fn (items ! r) = Inl e0 \<Longrightarrow>
         \<forall>j. i \<le> j \<and> j < r \<longrightarrow> (\<exists>v. fn (items ! j) = Inr v) \<Longrightarrow>
         \<exists>e tr'. rwc_loop items K fn lat i results tr = Some (Inl e, tr @ tr')
            \<and> started_of tr' = take (((r - i) div K + 1) * K) (tagged_from i (drop i items))
            \<and> (\<exists>x\<in>set items. fn x = Inl e)"
proof (induction "r - i" arbitrary: i results tr rule: less_induct)
  case less
  let ?rest = "drop i items"
  let ?batch = "slice items i (i + K)"
  let ?tagged = "tagged_from i ?batch"
  let ?order = "sort_key (\<lambda>(j, x). lat j) ?tagged"
  have i: "i < length items" using less.prems by simp
  have batch: "?batch = take K ?rest" by (simp add: slice_def)
  have zip: "zip [i ..< i + length ?batch] ?batch = ?tagged"
    by (simp add: tagged_from_def)
  have tagged: "?tagged = take K (tagged_from i ?rest)"
    by (simp add: batch tagged_from_take)
  show ?case
  proof (cases "r < i + K")
    case True
    have "(r, ?batch ! (r - i)) \<in> set ?tagged"
      using less.prems True by (intro tagged_from_member) (simp_all add: batch)
    moreover have "?batch ! (r - i) = items ! r"
      using less.prems True by (simp add: batch)
    ultimately have "(r, items ! r) \<in> set ?order" by simp
    then have "first_rejection fn ?order \<noteq> None"
      unfolding first_rejection_None using less.prems(3) by fastforce
    then obtain settled e where fr: "first_rejection fn ?order = Some (settled, e)"
      by (cases "first_rejection fn ?order") auto
    obtain j x where "(j, x) \<in> set ?order" "fn x = Inl e"
      using first_rejection_Some [OF fr] by blast
    then have "x \<in> set ?batch" "fn x = Inl e"
      by (auto simp: tagged_from_def dest: set_zip_rightD)
    then have e: "\<exists>x\<in>set items. fn x = Inl e"
      unfolding batch by (meson in_set_dropD in_set_takeD)
    have div: "(r - i) div K = 0" using True less.prems by simp
    have run: "rwc_loop items K fn lat i results tr =
        Some (Inl e, tr @ (map (\<lambda>(j, x). Started j x) ?tagged @ map (\<lambda>(j, x). Settled j x) settled))"
      by (subst rwc_loop.simps) (simp only: i if_True Let_def zip fr option.case prod.case)
    have st1: "started_of (map (\<lambda>(j, x). Started j x) ?tagged @ map (\<lambda>(j, x). Settled j x) settled)
            = take (((r - i) div K + 1) * K) (tagged_from i ?rest)"
      by (simp add: started_of_append started_of_Started started_of_Settled div tagged)
    show ?thesis
      by (rule exI [of _ e],
          rule exI [of _ "map (\<lambda>(j, x). Started j x) ?tagged @ map (\<lambda>(j, x). Settled j x) settled"],
          rule conjI [OF run conjI [OF st1 e]])
  next
    case False
    have ok: "\<forall>x\<in>set ?batch. \<exists>v. fn x = Inr v"
    proof
      fix x assume "x \<in> set ?batch"
      then have "x \<in> set (take K (drop i items))" by (simp only: batch)
      from in_batch [OF this] obtain j where j: "i \<le> j" "j < i + K" "x = items ! j"
        by blast
      then have "i \<le> j \<and> j < r" using False by simp
      then show "\<exists>v. fn x = Inr v" using less.prems(4) j(3) by blast
    qed
    then have none: "first_rejection fn ?order = None"
      unfolding first_rejection_None by (auto simp: tagged_from_def dest: set_zip_rightD)
    have "r - (i + K) < r - i" using K False less.prems by simp
    moreover have "i + K \<le> r" using False by simp
    moreover have "\<forall>j. i + K \<le> j \<and> j < r \<longrightarrow> (\<exists>v. fn (items ! j) = Inr v)"
      using less.prems(4) by simp
    ultimately have "\<exists>e tr'. rwc_loop items K fn lat (i + K) (results @ fulfilled (map fn ?batch))
              (tr @ map (\<lambda>(j, x). Started j x) ?tagged @ map (\<lambda>(j, x). Settled j x) ?order)
            = Some (Inl e, (tr @ map (\<lambda>(j, x). Started j x) ?tagged @ map (\<lambda>(j, x). Settled j x) ?order) @ tr')
         \<and> started_of tr' = take (((r - (i + K)) div K + 1) * K) (tagged_from (i + K) (drop (i + K) items))
         \<and> (\<exists>x\<in>set items. fn x = Inl e)"
      using less.prems(2,3) by (intro less.hyps) 
    then obtain e tr'' where
      rec: "rwc_loop items K fn lat (i + K) (results @ fulfilled (map fn ?batch))
              (tr @ map (\<lambda>(j, x). Started j x) ?tagged @ map (\<lambda>(j, x). Settled j x) ?order)
            = Some (Inl e, (tr @ map (\<lambda>(j, x). Started j x) ?tagged @ map (\<lambda>(j, x). Settled j x) ?order) @ tr'')"
      and st: "started_of tr'' = take (((r - (i + K)) div K + 1) * K) (tagged_from (i + K) (drop (i + K) items))"
      and e: "\<exists>x\<in>set items. fn x = Inl e"
      by (elim exE conjE)
    have run: "rwc_loop items K fn lat i results tr =
        Some (Inl e, tr @ (map (\<lambda>(j, x). Started j x) ?tagged @ map (\<lambda>(j, x). Settled j x) ?order @ tr''))"
      by (subst rwc_loop.simps) (simp add: i Let_def zip none rec del: map_map)
    have div: "(r - i) div K = Suc ((r - (i + K)) div K)"
      using False K by (simp add: le_div_geq)
    have dr: "drop K (tagged_from i ?rest) = tagged_from (i + K) (drop (i + K) items)"
      by (simp add: tagged_from_drop add.commute [of K i])
    have st2: "started_of (map (\<lambda>(j, x). Started j x) ?tagged @ map (\<lambda>(j, x). Settled j x) ?order @ tr'')
            = take K (tagged_from i ?rest) @ take (((r - (i + K)) div K + 1) * K) (drop K (tagged_from i ?rest))"
      by (simp add: started_of_append started_of_Started started_of_Settled st tagged dr)
    also have "\<dots> = take (K + ((r - (i + K)) div K + 1) * K) (tagged_from i ?rest)"
      by (simp add: take_add)
    also have "\<dots> = take (((r - i) div K + 1) * K) (tagged_from i ?rest)"
      by (simp add: div)
    finally have st3: "started_of (map (\<lambda>(j, x). Started j x) ?tagged @ map (\<lambda>(j, x). Settled j x) ?order @ tr'')
            = take (((r - i) div K + 1) * K) (tagged_from i ?rest)" .
    show ?thesis
      by (rule exI [of _ e],
          rule exI [of _ "map (\<lambda>(j, x). Started j x) ?tagged @ map (\<lambda>(j, x). Settled j x) ?order @ tr''"],
          rule conjI [OF run conjI [OF st3 e]])
  qed
qed

subsection \<open>Further facts about the model\<close>

text \<open>
  With a concurrency bound of zero and a nonempty input, the index of the loop never moves
  and \<open>runWithConcurrency\<close> does not return.
\<close>

lemma rwc_loop_zero:
  assumes "rwc_loop items K fn lat i results tr = Some y"
  shows "K = 0 \<longrightarrow> \<not> i < length items"
  by (rule rwc_loop.raw_induct
        [where P = "\<lambda>items K fn lat i results tr y. K = 0 \<longrightarrow> \<not> i < length items", OF _ assms])
     (fastforce simp: slice_def)

lemma runWithConcurrency_zero:
  "items \<noteq> [] \<Longrightarrow> runWithConcurrency items 0 fn lat = None"
proof (cases "runWithConcurrency items 0 fn lat")
  case None
  then show ?thesis by simp
next
  case (Some y)
  assume "items \<noteq> []"
  then show ?thesis using rwc_loop_zero [of items 0 fn lat 0 "[]" "[]" y] Some
    by (simp add: runWithConcurrency_def)
qed

text \<open>
  Every branch of \<open>classifyLead\<close>: the persona returned always contains the pattern, and
  it is \<open>Persona 4\<close> when the service throws, when the answer has no text, and when the
  trimmed text does not contain the pattern; otherwise it is the trimmed text, whole.
\<close>

lemma classifyLead_fallback:
  "match_Persona (fst (classifyLead w ld))
   \<and> (\<forall>msg. messages_create w (build_prompt ld) = Create_throws msg
          \<longrightarrow> fst (classifyLead w ld) = ''Persona 4'')
   \<and> (messages_create w (build_prompt ld) = Create_returns []
          \<longrightarrow> fst (classifyLead w ld) = ''Persona 4'')
   \<and> (\<forall>rest. messages_create w (build_prompt ld) = Create_returns (Other_block # rest)
          \<longrightarrow> fst (classifyLead w ld) = ''Persona 4'')
   \<and> (\<forall>text rest. messages_create w (build_prompt ld) = Create_returns (Text_block text # rest)
          \<longrightarrow> fst (classifyLead w ld) = (if match_Persona (trim text) then trim text else ''Persona 4''))"
proof -
  have p4: "match_Persona ''Persona 4''" by code_simp
  show ?thesis
    using p4
    by (simp add: classifyLead_def Let_def
        split: create_outcome.splits list.splits content_block.splits)
qed

text \<open>\<open>main\<close> always comes to one of its exits.\<close>

lemma main_total: "\<exists>ex tr. main w = Some (ex, tr)"
proof (cases "readFileSync_parse w CSV_FILE_PATH")
  case (Csv_throws msg)
  then show ?thesis by (simp add: main_def readCSV_def fatal_def)
next
  case (Csv_records leads)
  show ?thesis
  proof (cases "newLeads (fst (filterDuplicates w leads)) = []")
    case True
    then show ?thesis
      by (cases "filterDuplicates w leads") (simp add: main_def readCSV_ok [OF Csv_records])
  next
    case False
    then show ?thesis using main_run [OF Csv_records False] by blast
  qed
qed

section \<open>The properties\<close>

subsection \<open>The concurrency limiter\<close>

text \<open>
  C1. For every list of items, every concurrency bound \<open>K \<ge> 1\<close>, every operation that
  gives a result on each item, and whatever the time each operation takes:
  \<open>runWithConcurrency\<close> returns, and its results are the results of the operation on the
  items, in the order of the items (as many results as items, the i-th one being the result
  for the i-th item); its events are those of the schedule that goes through the consecutive
  chunks of size \<open>K\<close> one after the other (the chunks put together are the input, and the
  k-th chunk holds the at most \<open>K\<close> items from position \<open>k * K\<close> on); and after any number
  of its events, at most \<open>K\<close> operations are in flight.
\<close>

theorem runWithConcurrency_ordered_bounded:
  fixes items :: "'a list" and op :: "'a \<Rightarrow> 'b"
  assumes "1 \<le> K"
  shows "runWithConcurrency items K (\<lambda>x. Inr (op x) :: 'e + 'b) lat =
           Some (Inr (map op items), schedule K lat items)
       \<and> length (map op items) = length items
       \<and> (\<forall>i<length items. map op items ! i = op (items ! i))
       \<and> concat (chunks_of K (tagged_from 0 items)) = tagged_from 0 items
       \<and> (\<forall>k<length (chunks_of K (tagged_from 0 items)).
             chunks_of K (tagged_from 0 items) ! k = take K (drop (k * K) (tagged_from 0 items)))
       \<and> (\<forall>n. 0 \<le> in_flight (take n (schedule K lat items))
              \<and> in_flight (take n (schedule K lat items)) \<le> int K)"
proof (intro conjI allI impI)
  show "runWithConcurrency items K (\<lambda>x. Inr (op x) :: 'e + 'b) lat =
          Some (Inr (map op items), schedule K lat items)"
    by (rule rwc_fulfilled [OF assms])
  show "concat (chunks_of K (tagged_from 0 items)) = tagged_from 0 items"
    by (rule concat_chunks_of [OF assms])
  show "chunks_of K (tagged_from 0 items) ! k = take K (drop (k * K) (tagged_from 0 items))"
    if "k < length (chunks_of K (tagged_from 0 items))" for k
    using that by (rule chunks_of_nth)
  have len: "\<forall>c\<in>set (chunks_of K (tagged_from 0 items)). length c \<le> K"
    by (simp add: chunks_of_length)
  show "0 \<le> in_flight (take n (schedule K lat items))" for n
    unfolding schedule_def using trace_in_flight [OF len, of n lat] by simp
  show "in_flight (take n (schedule K lat items)) \<le> int K" for n
    unfolding schedule_def using trace_in_flight [OF len, of n lat] by simp
qed simp_all

theorem runWithConcurrency_ordered_bounded_witness:
  "(1::nat) \<le> 2
   \<and> runWithConcurrency [1::nat, 2, 3] 2 (\<lambda>x. Inr (x * 10)) (\<lambda>j. 10 - j) =
       Some (Inr [10, 20, 30],
             [Started 0 1, Started 1 2, Settled 1 2, Settled 0 1, Started 2 3, Settled 2 3])
   \<and> in_flight (take 2 (schedule 2 (\<lambda>j. 10 - j) [1::nat, 2, 3])) \<le> int 2"
proof -
  have h: "(1::nat) \<le> 2" by simp
  have s: "schedule 2 (\<lambda>j. 10 - j) [1::nat, 2, 3] =
      [Started 0 1, Started 1 2, Settled 1 2, Settled 0 1, Started 2 3, Settled 2 3]"
    by code_simp
  have m: "map (\<lambda>x. x * 10) [1::nat, 2, 3] = [10, 20, 30]" by simp
  note t = runWithConcurrency_ordered_bounded [OF h, of "[1::nat, 2, 3]" "\<lambda>x. x * 10" "\<lambda>j. 10 - j"]
  from t have r: "runWithConcurrency [1::nat, 2, 3] 2 (\<lambda>x. Inr (x * 10)) (\<lambda>j. 10 - j) =
       Some (Inr (map (\<lambda>x. x * 10) [1::nat, 2, 3]), schedule 2 (\<lambda>j. 10 - j) [1::nat, 2, 3])"
    by (rule conjunct1)
  from t have b: "in_flight (take 2 (schedule 2 (\<lambda>j. 10 - j) [1::nat, 2, 3])) \<le> int 2"
    by blast
  show ?thesis using h r [unfolded s m] b by blast
qed

text \<open>
  C6, as the code has it. The limiter never starts an operation twice, and an operation that
  reports its failure by a value does not disturb the others: when every operation is
  fulfilled, every item is started once and has its result. But the limiter does stop at an
  operation that is rejected: if the item at position \<open>r\<close> is the first whose operation is
  rejected, then the operations of its chunk, and of the chunks before it, have been started
  (its siblings are not held back), no operation of a later chunk is started, and the limiter
  itself is rejected, with the error of a rejected operation, returning no results.
\<close>

theorem runWithConcurrency_rejection:
  assumes "1 \<le> K"
  shows "((\<forall>x\<in>set items. \<exists>v. fn x = Inr v) \<longrightarrow>
            (\<exists>vs tr. runWithConcurrency items K fn lat = Some (Inr vs, tr)
                \<and> map Inr vs = map fn items
                \<and> started_of tr = tagged_from 0 items))
       \<and> (\<forall>r e0. r < length items \<and> fn (items ! r) = Inl e0
                  \<and> (\<forall>j<r. \<exists>v. fn (items ! j) = Inr v) \<longrightarrow>
            (\<exists>e tr. runWithConcurrency items K fn lat = Some (Inl e, tr)
                \<and> started_of tr = take ((r div K + 1) * K) (tagged_from 0 items)
                \<and> (\<exists>x\<in>set items. fn x = Inl e)))"
proof (intro conjI impI allI)
  assume ok: "\<forall>x\<in>set items. \<exists>v. fn x = Inr v"
  have "runWithConcurrency items K fn lat
          = Some (Inr (fulfilled (map fn items)), schedule K lat items)"
    using rwc_loop_fulfilled [OF assms, of 0 items fn lat "[]" "[]"] ok
    by (simp add: runWithConcurrency_def schedule_def)
  then show "\<exists>vs tr. runWithConcurrency items K fn lat = Some (Inr vs, tr)
                \<and> map Inr vs = map fn items
                \<and> started_of tr = tagged_from 0 items"
    using fulfilled_all [OF ok] started_of_schedule [OF assms, of lat items] by blast
next
  fix r e0
  assume h: "r < length items \<and> fn (items ! r) = Inl e0 \<and> (\<forall>j<r. \<exists>v. fn (items ! j) = Inr v)"
  then show "\<exists>e tr. runWithConcurrency items K fn lat = Some (Inl e, tr)
                \<and> started_of tr = take ((r div K + 1) * K) (tagged_from 0 items)
                \<and> (\<exists>x\<in>set items. fn x = Inl e)"
    using rwc_loop_rejects [OF assms, of 0 r items fn e0 lat "[]" "[]"]
    by (simp add: runWithConcurrency_def)
qed

theorem runWithConcurrency_short_circuits_counterexample:
  "(1::nat) \<le> 1
   \<and> runWithConcurrency [1::nat, 2, 3] 1 rejects_one (\<lambda>j. 0)
       = Some (Inl ''boom'', [Started 0 1, Settled 0 1])
   \<and> runWithConcurrency [1::nat, 2, 3] 3 rejects_one (\<lambda>j. 0)
       = Some (Inl ''boom'', [Started 0 1, Started 1 2, Started 2 3, Settled 0 1])
   \<and> rejects_one 2 = Inr 20 \<and> rejects_one 3 = Inr 30"
  by code_simp

theorem runWithConcurrency_rejection_witness:
  "(1::nat) \<le> 2
   \<and> (0::nat) < length [1::nat, 2, 3, 4, 5] \<and> rejects_one ([1::nat, 2, 3, 4, 5] ! 0) = Inl ''boom''
   \<and> (\<exists>e tr. runWithConcurrency [1::nat, 2, 3, 4, 5] 2 rejects_one (\<lambda>j. 0) = Some (Inl e, tr)
         \<and> started_of tr = [(0, 1), (1, 2)])
   \<and> (\<exists>vs tr. runWithConcurrency [2::nat, 3] 2 rejects_one (\<lambda>j. 0) = Some (Inr vs, tr)
         \<and> map Inr vs = [Inr 20, Inr 30 :: string + nat])"
proof -
  have K: "(1::nat) \<le> 2" by simp
  have r: "(0::nat) < length [1::nat, 2, 3, 4, 5] \<and> rejects_one ([1::nat, 2, 3, 4, 5] ! 0) = Inl ''boom''
           \<and> (\<forall>j<0::nat. \<exists>v. rejects_one ([1::nat, 2, 3, 4, 5] ! j) = Inr v)"
    by (simp add: rejects_one_def)
  have t: "take ((0 div 2 + 1) * 2) (tagged_from 0 [1::nat, 2, 3, 4, 5]) = [(0, 1), (1, 2)]"
    by code_simp
  have ok: "\<forall>x\<in>set [2::nat, 3]. \<exists>v. rejects_one x = Inr v"
    by (simp add: rejects_one_def)
  have m: "map rejects_one [2::nat, 3] = [Inr 20, Inr 30]"
    by (simp add: rejects_one_def)
  from runWithConcurrency_rejection [OF K, of "[1::nat, 2, 3, 4, 5]" rejects_one "\<lambda>j. 0"] r
  have a: "\<exists>e tr. runWithConcurrency [1::nat, 2, 3, 4, 5] 2 rejects_one (\<lambda>j. 0) = Some (Inl e, tr)
         \<and> started_of tr = [(0, 1), (1, 2)]"
    unfolding t [symmetric] by blast
  from runWithConcurrency_rejection [OF K, of "[2::nat, 3]" rejects_one "\<lambda>j. 0"] ok
  have b: "\<exists>vs tr. runWithConcurrency [2::nat, 3] 2 rejects_one (\<lambda>j. 0) = Some (Inr vs, tr)
         \<and> map Inr vs = [Inr 20, Inr 30 :: string + nat]"
    unfolding m [symmetric] by blast
  show ?thesis using K r a b by blast
qed

subsection \<open>The deduplication filter\<close>

text \<open>
  C2. For every batch and every answer of the store: the new leads are a subsequence of the
  batch, in its order; the number of duplicates plus the number of new leads is the size of
  the batch; the store is queried once, for the emails of the whole batch; and when the query
  returns a set of emails, the new leads are exactly the leads of the batch whose email is not
  in that set, the duplicates being counted as the others.
\<close>

theorem filterDuplicates_partition:
  "subseq (newLeads (fst (filterDuplicates w leads))) leads
   \<and> duplicateCount (fst (filterDuplicates w leads))
       + length (newLeads (fst (filterDuplicates w leads))) = length leads
   \<and> external_calls (snd (filterDuplicates w leads)) = [Select_issued (map Email leads)]
   \<and> (\<forall>rows. select_email_in w (map Email leads) = Select_returns (Some rows) None \<longrightarrow>
         newLeads (fst (filterDuplicates w leads)) = filter (\<lambda>ld. Email ld \<notin> set rows) leads
         \<and> duplicateCount (fst (filterDuplicates w leads))
             = length (filter (\<lambda>ld. Email ld \<in> set rows) leads))"
proof (cases "query_failed (select_email_in w (map Email leads))")
  case True
  then have "\<forall>rows. select_email_in w (map Email leads) \<noteq> Select_returns (Some rows) None"
    by auto
  then show ?thesis
    using filterDuplicates_failed [OF True] by simp
next
  case False
  then obtain rows where ok: "select_email_in w (map Email leads) = Select_returns (Some rows) None"
    by (cases "select_email_in w (map Email leads)" rule: query_failed.cases) simp_all
  have "length (filter (\<lambda>ld. Email ld \<in> set rows) leads)
        + length (filter (\<lambda>ld. Email ld \<notin> set rows) leads) = length leads"
    using sum_length_filter_compl [of "\<lambda>ld. Email ld \<in> set rows" leads] by simp
  then show ?thesis
    using filterDuplicates_projections [of w leads]
    by (simp add: filterDuplicates_ok [OF ok] ok)
qed

theorem filterDuplicates_partition_witness:
  "newLeads (fst (filterDuplicates (world1\<lparr>select_email_in := (\<lambda>emails. Select_returns (Some [''ben@dos.example'']) None)\<rparr>) [lead1, lead2, lead3])) = [lead1, lead3]
   \<and> duplicateCount (fst (filterDuplicates (world1\<lparr>select_email_in := (\<lambda>emails. Select_returns (Some [''ben@dos.example'']) None)\<rparr>) [lead1, lead2, lead3])) = 1"
proof -
  let ?w = "world1\<lparr>select_email_in := (\<lambda>emails. Select_returns (Some [''ben@dos.example'']) None)\<rparr>"
  have q: "select_email_in ?w (map Email [lead1, lead2, lead3]) = Select_returns (Some [''ben@dos.example'']) None"
    by simp
  have f: "filter (\<lambda>ld. Email ld \<notin> set [''ben@dos.example'']) [lead1, lead2, lead3] = [lead1, lead3]"
    by (simp add: lead1_def lead2_def lead3_def)
  have g: "length (filter (\<lambda>ld. Email ld \<in> set [''ben@dos.example'']) [lead1, lead2, lead3]) = 1"
    by (simp add: lead1_def lead2_def lead3_def)
  from filterDuplicates_partition [of ?w "[lead1, lead2, lead3]"] q f g
  show ?thesis by metis
qed

text \<open>
  C5. For every batch: when the bulk existence query fails (the call throws, or it returns an
  error, or it returns no data), \<open>filterDuplicates\<close> returns the whole batch, unchanged, as
  the new leads, and zero duplicates. The function has no other result than this record: it
  raises nothing.
\<close>

theorem filterDuplicates_fail_open:
  "query_failed (select_email_in w (map Email leads)) \<Longrightarrow>
   fst (filterDuplicates w leads) = \<lparr>newLeads = leads, duplicateCount = 0\<rparr>"
  by (simp add: filterDuplicates_failed)

theorem filterDuplicates_fail_open_witness:
  "query_failed (select_email_in (world1\<lparr>select_email_in := (\<lambda>emails. Select_throws ''fetch failed'')\<rparr>)
       (map Email [lead1, lead2]))
   \<and> fst (filterDuplicates (world1\<lparr>select_email_in := (\<lambda>emails. Select_throws ''fetch failed'')\<rparr>) [lead1, lead2])
       = \<lparr>newLeads = [lead1, lead2], duplicateCount = 0\<rparr>"
proof -
  have h: "query_failed (select_email_in (world1\<lparr>select_email_in := (\<lambda>emails. Select_throws ''fetch failed'')\<rparr>)
       (map Email [lead1, lead2]))"
    by simp
  show ?thesis
    using h filterDuplicates_fail_open [OF h] by blast
qed

text \<open>
  C10. The duplicate check compares the email of a lead with the emails that the store
  returns, never with the other leads of the batch: when the query returns a set of emails
  and an email is not in it, all the leads of the batch with that email are new leads, in
  their order; and in a run on that batch, the one bulk insert holds a row for each of them.
\<close>

theorem within_batch_duplicates_kept:
  assumes "select_email_in w (map Email leads) = Select_returns (Some rows) None"
    and "e \<notin> set rows"
  shows "filter (\<lambda>ld. Email ld = e) (newLeads (fst (filterDuplicates w leads)))
           = filter (\<lambda>ld. Email ld = e) leads
     \<and> (readFileSync_parse w CSV_FILE_PATH = Csv_records leads \<and> e \<in> set (map Email leads)
        \<longrightarrow> (\<exists>tr rws. main w = Some (Returned, tr) \<and> inserted tr = [rws]
               \<and> map email (filter (\<lambda>r. email r = e) rws)
                   = map Email (filter (\<lambda>ld. Email ld = e) leads)))"
proof (intro conjI impI)
  let ?nl = "newLeads (fst (filterDuplicates w leads))"
  have nl: "?nl = filter (\<lambda>ld. Email ld \<notin> set rows) leads"
    by (simp add: filterDuplicates_ok [OF assms(1)])
  have "filter (\<lambda>ld. Email ld = e) (filter (\<lambda>ld. Email ld \<notin> set rows) xs)
          = filter (\<lambda>ld. Email ld = e) xs" for xs
    using assms(2) by (induction xs) auto
  then show kept: "filter (\<lambda>ld. Email ld = e) ?nl = filter (\<lambda>ld. Email ld = e) leads"
    by (simp only: nl)
  assume h: "readFileSync_parse w CSV_FILE_PATH = Csv_records leads \<and> e \<in> set (map Email leads)"
  then have "filter (\<lambda>ld. Email ld = e) leads \<noteq> []"
    by (auto simp: filter_empty_conv)
  then have new: "?nl \<noteq> []" using kept by auto
  obtain tr where tr: "main w = Some (Returned, tr)"
      "inserted tr = [map to_row (classified_of w ?nl)]"
    using main_run [OF conjunct1 [OF h] new] by blast
  have "map email (filter (\<lambda>r. email r = e) (map to_row (classified_of w xs)))
          = map Email (filter (\<lambda>ld. Email ld = e) xs)" for xs
    by (induction xs) (simp_all add: classified_of_def to_row_def)
  then show "\<exists>tr rws. main w = Some (Returned, tr) \<and> inserted tr = [rws]
               \<and> map email (filter (\<lambda>r. email r = e) rws)
                   = map Email (filter (\<lambda>ld. Email ld = e) leads)"
    using tr kept by metis
qed

theorem within_batch_duplicates_kept_witness:
  "select_email_in world_shared_email (map Email [lead1, lead2, lead1b]) = Select_returns (Some []) None
   \<and> ''ana@uno.example'' \<notin> set []
   \<and> readFileSync_parse world_shared_email CSV_FILE_PATH = Csv_records [lead1, lead2, lead1b]
   \<and> ''ana@uno.example'' \<in> set (map Email [lead1, lead2, lead1b])
   \<and> filter (\<lambda>ld. Email ld = ''ana@uno.example'')
        (newLeads (fst (filterDuplicates world_shared_email [lead1, lead2, lead1b]))) = [lead1, lead1b]
   \<and> (\<exists>tr rws. main world_shared_email = Some (Returned, tr) \<and> inserted tr = [rws]
          \<and> map email (filter (\<lambda>r. email r = ''ana@uno.example'') rws)
              = [''ana@uno.example'', ''ana@uno.example''])"
proof -
  have q: "select_email_in world_shared_email (map Email [lead1, lead2, lead1b]) = Select_returns (Some []) None"
    by (simp add: world_shared_email_def world1_def)
  have e: "''ana@uno.example'' \<notin> set []" by simp
  have csv: "readFileSync_parse world_shared_email CSV_FILE_PATH = Csv_records [lead1, lead2, lead1b]"
    by (simp add: world_shared_email_def)
  have m: "''ana@uno.example'' \<in> set (map Email [lead1, lead2, lead1b])"
    by (simp add: lead1_def)
  have f: "filter (\<lambda>ld. Email ld = ''ana@uno.example'') [lead1, lead2, lead1b] = [lead1, lead1b]"
    by (simp add: lead1_def lead2_def lead1b_def)
  have g: "map Email [lead1, lead1b] = [''ana@uno.example'', ''ana@uno.example'']"
    by (simp add: lead1_def lead1b_def)
  note t = within_batch_duplicates_kept [OF q e]
  from t have a: "filter (\<lambda>ld. Email ld = ''ana@uno.example'')
        (newLeads (fst (filterDuplicates world_shared_email [lead1, lead2, lead1b]))) = [lead1, lead1b]"
    unfolding f by (rule conjunct1)
  from t csv m have b: "\<exists>tr rws. main world_shared_email = Some (Returned, tr) \<and> inserted tr = [rws]
          \<and> map email (filter (\<lambda>r. email r = ''ana@uno.example'') rws)
              = [''ana@uno.example'', ''ana@uno.example'']"
    unfolding f g by blast
  show ?thesis using q e csv m a b by blast
qed

subsection \<open>The classifier\<close>

text \<open>
  C3. \<open>classifyLead\<close> returns \<open>Persona 4\<close> when the service throws, when its answer has
  no text, and when the text does not contain the pattern; but the pattern is searched
  anywhere in the text, and the text is returned whole: on the answer
  \<open>Persona 2 - Beverage Director\<close> the persona returned is that sentence, which is none
  of the four tokens.
\<close>

theorem classifyLead_returns_sentence:
  "messages_create world_verbose (build_prompt lead2)
     = Create_returns [Text_block ''Persona 2 - Beverage Director'']
   \<and> fst (classifyLead world_verbose lead2) = ''Persona 2 - Beverage Director''
   \<and> fst (classifyLead world_verbose lead2) \<notin> set personas"
  by code_simp

subsection \<open>Persistence and the order of the stages\<close>

text \<open>
  C4. For every list of classified records, \<open>addLeadsToDatabase\<close> issues one bulk insert,
  of the rows of all the records, and returns success with the number of records when the
  insert succeeds, and failure with the count zero when it fails in either way. When the
  insert fails in a run that has new leads, the run still returns and prints its summary,
  with zero records processed; and whatever the insert does, the summary has the same count
  for each persona.
\<close>

theorem addLeadsToDatabase_all_or_nothing:
  "external_calls (snd (addLeadsToDatabase w cls)) = [Insert_issued (map to_row cls)]
   \<and> fst (addLeadsToDatabase w cls) =
       (if insert_ok (insert_rows w (map to_row cls))
        then \<lparr>success = True, count = length cls\<rparr> else \<lparr>success = False, count = 0\<rparr>)
   \<and> (readFileSync_parse w CSV_FILE_PATH = Csv_records leads
        \<and> newLeads (fst (filterDuplicates w leads)) \<noteq> []
        \<and> \<not> insert_ok (insert_rows w (map to_row (classified_of w (newLeads (fst (filterDuplicates w leads))))))
       \<longrightarrow> (\<exists>tr s. main w = Some (Returned, tr) \<and> summaries tr = [s]
              \<and> successfully_processed s = 0
              \<and> (\<forall>ins. \<exists>s'. summary_of_run (main (w\<lparr>insert_rows := ins\<rparr>)) = [s']
                    \<and> persona_1 s' = persona_1 s \<and> persona_2 s' = persona_2 s
                    \<and> persona_3 s' = persona_3 s \<and> persona_4 s' = persona_4 s)))"
proof (intro conjI impI)
  show "external_calls (snd (addLeadsToDatabase w cls)) = [Insert_issued (map to_row cls)]"
    by (simp add: addLeadsToDatabase_run)
  show "fst (addLeadsToDatabase w cls) =
       (if insert_ok (insert_rows w (map to_row cls))
        then \<lparr>success = True, count = length cls\<rparr> else \<lparr>success = False, count = 0\<rparr>)"
    by (simp add: addLeadsToDatabase_run)
next
  assume h: "readFileSync_parse w CSV_FILE_PATH = Csv_records leads
        \<and> newLeads (fst (filterDuplicates w leads)) \<noteq> []
        \<and> \<not> insert_ok (insert_rows w (map to_row (classified_of w (newLeads (fst (filterDuplicates w leads))))))"
  then have csv: "readFileSync_parse w CSV_FILE_PATH = Csv_records leads"
    and new: "newLeads (fst (filterDuplicates w leads)) \<noteq> []"
    and fail: "\<not> insert_ok (insert_rows w (map to_row (classified_of w (newLeads (fst (filterDuplicates w leads))))))"
    by simp_all
  obtain tr where tr: "main w = Some (Returned, tr)" "summaries tr = [summary_for w leads]"
    using main_run [OF csv new] by blast
  have zero: "successfully_processed (summary_for w leads) = 0"
    using fail by (simp add: summary_for_def Let_def)
  have same: "\<exists>s'. summary_of_run (main (w\<lparr>insert_rows := ins\<rparr>)) = [s']
                    \<and> persona_1 s' = persona_1 (summary_for w leads)
                    \<and> persona_2 s' = persona_2 (summary_for w leads)
                    \<and> persona_3 s' = persona_3 (summary_for w leads)
                    \<and> persona_4 s' = persona_4 (summary_for w leads)" for ins
  proof -
    have "summary_of_run (main (w\<lparr>insert_rows := ins\<rparr>)) = [summary_for (w\<lparr>insert_rows := ins\<rparr>) leads]"
      using csv new by (intro summary_of_main) (simp_all add: env_insert_rows_irrelevant)
    then show ?thesis
      by (simp add: summary_for_def Let_def env_insert_rows_irrelevant)
  qed
  show "\<exists>tr s. main w = Some (Returned, tr) \<and> summaries tr = [s]
              \<and> successfully_processed s = 0
              \<and> (\<forall>ins. \<exists>s'. summary_of_run (main (w\<lparr>insert_rows := ins\<rparr>)) = [s']
                    \<and> persona_1 s' = persona_1 s \<and> persona_2 s' = persona_2 s
                    \<and> persona_3 s' = persona_3 s \<and> persona_4 s' = persona_4 s)"
    using tr zero same by blast
qed

theorem addLeadsToDatabase_all_or_nothing_witness:
  "readFileSync_parse world_insert_fails CSV_FILE_PATH = Csv_records [lead1, lead2, lead3]
   \<and> newLeads (fst (filterDuplicates world_insert_fails [lead1, lead2, lead3])) \<noteq> []
   \<and> \<not> insert_ok (insert_rows world_insert_fails
           (map to_row (classified_of world_insert_fails
              (newLeads (fst (filterDuplicates world_insert_fails [lead1, lead2, lead3]))))))
   \<and> (\<exists>tr s. main world_insert_fails = Some (Returned, tr) \<and> summaries tr = [s]
          \<and> successfully_processed s = 0
          \<and> persona_1 s = Some (Num 1) \<and> persona_2 s = Some (Num 1)
          \<and> persona_3 s = Some (Num 1) \<and> persona_4 s = Some (Num 0))
   \<and> fst (addLeadsToDatabase world_insert_fails (classified_of world_insert_fails [lead1]))
       = \<lparr>success = False, count = 0\<rparr>"
proof -
  have csv: "readFileSync_parse world_insert_fails CSV_FILE_PATH = Csv_records [lead1, lead2, lead3]"
    by (simp add: world_insert_fails_def world1_def)
  have new: "newLeads (fst (filterDuplicates world_insert_fails [lead1, lead2, lead3])) \<noteq> []"
    by code_simp
  have fail: "\<not> insert_ok (insert_rows world_insert_fails
           (map to_row (classified_of world_insert_fails
              (newLeads (fst (filterDuplicates world_insert_fails [lead1, lead2, lead3]))))))"
    by (simp add: world_insert_fails_def)
  have ok1: "summary_of_run (main (world_insert_fails\<lparr>insert_rows := (\<lambda>rows. Insert_returns None)\<rparr>))
      = [\<lparr>total_leads = 3, successfully_processed = 3, skipped_duplicates = 0,
           failed_db_inserts = 0, webhook_sent = 2, webhook_failed = 1,
           persona_1 = Some (Num 1), persona_2 = Some (Num 1),
           persona_3 = Some (Num 1), persona_4 = Some (Num 0)\<rparr>]"
    by code_simp
  note t = addLeadsToDatabase_all_or_nothing
    [of world_insert_fails "classified_of world_insert_fails [lead1]" "[lead1, lead2, lead3]"]
  from t csv new fail obtain tr s where
    r: "main world_insert_fails = Some (Returned, tr)" "summaries tr = [s]"
       "successfully_processed s = 0"
    and same: "\<forall>ins. \<exists>s'. summary_of_run (main (world_insert_fails\<lparr>insert_rows := ins\<rparr>)) = [s']
                    \<and> persona_1 s' = persona_1 s \<and> persona_2 s' = persona_2 s
                    \<and> persona_3 s' = persona_3 s \<and> persona_4 s' = persona_4 s"
    by blast
  from same ok1 have p: "persona_1 s = Some (Num 1) \<and> persona_2 s = Some (Num 1)
          \<and> persona_3 s = Some (Num 1) \<and> persona_4 s = Some (Num 0)"
    by (metis list.inject run_summary.select_convs(7,8,9,10))
  from t have res: "fst (addLeadsToDatabase world_insert_fails (classified_of world_insert_fails [lead1]))
       = \<lparr>success = False, count = 0\<rparr>"
    by (simp add: world_insert_fails_def)
  show ?thesis using csv new fail r p res by blast
qed

text \<open>
  C7. In every run that has new leads: the calls to the services are, in this order, the
  existence query, the calls of the classification stage, the bulk insert of the rows of all
  the classified records, and the calls of the delivery stage. Before the insert, the request
  of every new lead has been issued and has settled; after it, a delivery is issued, and
  settles, for every classified record. Nothing here depends on what the insert returns:
  deliveries are attempted as well when it fails.
\<close>

theorem main_stage_order:
  assumes "readFileSync_parse w CSV_FILE_PATH = Csv_records leads"
    and "newLeads (fst (filterDuplicates w leads)) \<noteq> []"
  shows "let nl = newLeads (fst (filterDuplicates w leads));
             cls = classified_of w nl;
             cs = map create_call (schedule CONCURRENCY (classify_latency w) nl);
             ps = map (post_call w) (schedule CONCURRENCY (webhook_latency w) cls)
         in (\<exists>tr. main w = Some (Returned, tr)
               \<and> external_calls tr
                   = Select_issued (map Email leads) # cs @ Insert_issued (map to_row cls) # ps)
            \<and> (\<forall>j<length nl. Create_issued j (build_prompt (nl ! j)) \<in> set cs
                              \<and> Create_settled j \<in> set cs)
            \<and> (\<forall>j<length cls. Post_issued j (build_payload w j (cls ! j)) \<in> set ps
                               \<and> Post_settled j \<in> set ps)"
proof -
  have K: "1 \<le> CONCURRENCY" by (simp add: CONCURRENCY_def)
  have c: "Create_issued j (build_prompt (nl ! j)) \<in> set (map create_call (schedule CONCURRENCY lat nl))
         \<and> Create_settled j \<in> set (map create_call (schedule CONCURRENCY lat nl))"
    if "j < length nl" for j lat and nl :: "lead list"
  proof -
    have "create_call (Started j (nl ! j)) \<in> create_call ` set (schedule CONCURRENCY lat nl)"
      and "create_call (Settled j (nl ! j)) \<in> create_call ` set (schedule CONCURRENCY lat nl)"
      using schedule_covers [OF K that, of lat] by blast+
    then show ?thesis by simp
  qed
  have p: "Post_issued j (build_payload w j (cls ! j)) \<in> set (map (post_call w) (schedule CONCURRENCY lat cls))
         \<and> Post_settled j \<in> set (map (post_call w) (schedule CONCURRENCY lat cls))"
    if "j < length cls" for j lat and cls :: "classified list"
  proof -
    have "post_call w (Started j (cls ! j)) \<in> post_call w ` set (schedule CONCURRENCY lat cls)"
      and "post_call w (Settled j (cls ! j)) \<in> post_call w ` set (schedule CONCURRENCY lat cls)"
      using schedule_covers [OF K that, of lat] by blast+
    then show ?thesis by simp
  qed
  show ?thesis
    unfolding Let_def using main_run [OF assms] c p by blast
qed

theorem main_stage_order_witness:
  "readFileSync_parse world_insert_fails CSV_FILE_PATH = Csv_records [lead1, lead2, lead3]
   \<and> newLeads (fst (filterDuplicates world_insert_fails [lead1, lead2, lead3])) \<noteq> []
   \<and> (\<exists>tr. main world_insert_fails = Some (Returned, tr)
         \<and> external_calls tr =
             [Select_issued [''ana@uno.example'', ''ben@dos.example'', ''cris@tres.example''],
              Create_issued 0 (build_prompt lead1), Create_issued 1 (build_prompt lead2),
              Create_issued 2 (build_prompt lead3),
              Create_settled 2, Create_settled 1, Create_settled 0,
              Insert_issued (map to_row (classified_of world_insert_fails [lead1, lead2, lead3])),
              Post_issued 0 (build_payload world_insert_fails 0 \<lparr>lead = lead1, persona = ''Persona 1''\<rparr>),
              Post_issued 1 (build_payload world_insert_fails 1 \<lparr>lead = lead2, persona = ''Persona 2''\<rparr>),
              Post_issued 2 (build_payload world_insert_fails 2 \<lparr>lead = lead3, persona = ''Persona 3''\<rparr>),
              Post_settled 0, Post_settled 1, Post_settled 2])"
proof -
  have csv: "readFileSync_parse world_insert_fails CSV_FILE_PATH = Csv_records [lead1, lead2, lead3]"
    by (simp add: world_insert_fails_def world1_def)
  have new: "newLeads (fst (filterDuplicates world_insert_fails [lead1, lead2, lead3])) \<noteq> []"
    by code_simp
  have calls: "Select_issued (map Email [lead1, lead2, lead3])
      # map create_call (schedule CONCURRENCY (classify_latency world_insert_fails)
            (newLeads (fst (filterDuplicates world_insert_fails [lead1, lead2, lead3]))))
      @ Insert_issued (map to_row (classified_of world_insert_fails
            (newLeads (fst (filterDuplicates world_insert_fails [lead1, lead2, lead3])))))
      # map (post_call world_insert_fails) (schedule CONCURRENCY (webhook_latency world_insert_fails)
            (classified_of world_insert_fails
               (newLeads (fst (filterDuplicates world_insert_fails [lead1, lead2, lead3])))))
      = [Select_issued [''ana@uno.example'', ''ben@dos.example'', ''cris@tres.example''],
              Create_issued 0 (build_prompt lead1), Create_issued 1 (build_prompt lead2),
              Create_issued 2 (build_prompt lead3),
              Create_settled 2, Create_settled 1, Create_settled 0,
              Insert_issued (map to_row (classified_of world_insert_fails [lead1, lead2, lead3])),
              Post_issued 0 (build_payload world_insert_fails 0 \<lparr>lead = lead1, persona = ''Persona 1''\<rparr>),
              Post_issued 1 (build_payload world_insert_fails 1 \<lparr>lead = lead2, persona = ''Persona 2''\<rparr>),
              Post_issued 2 (build_payload world_insert_fails 2 \<lparr>lead = lead3, persona = ''Persona 3''\<rparr>),
              Post_settled 0, Post_settled 1, Post_settled 2]"
    by code_simp
  from main_stage_order [OF csv new]
  have "\<exists>tr. main world_insert_fails = Some (Returned, tr)
         \<and> external_calls tr = Select_issued (map Email [lead1, lead2, lead3])
      # map create_call (schedule CONCURRENCY (classify_latency world_insert_fails)
            (newLeads (fst (filterDuplicates world_insert_fails [lead1, lead2, lead3]))))
      @ Insert_issued (map to_row (classified_of world_insert_fails
            (newLeads (fst (filterDuplicates world_insert_fails [lead1, lead2, lead3])))))
      # map (post_call world_insert_fails) (schedule CONCURRENCY (webhook_latency world_insert_fails)
            (classified_of world_insert_fails
               (newLeads (fst (filterDuplicates world_insert_fails [lead1, lead2, lead3])))))"
    unfolding Let_def by (rule conjunct1)
  then show ?thesis
    unfolding calls using csv new by blast
qed

subsection \<open>Delivery\<close>

text \<open>
  C8. For every list of classified records, \<open>sendLeadsToWebhook\<close> returns, and: the number
  of successes is the number of records whose delivery was answered with status 200 or 201;
  the number of failures is the number of the others (another status, or a call that throws);
  the two add up to the number of records; a delivery is issued once for each record, in the
  order of the records (none is retried); every failed delivery has its console line, with
  the email of the record; and what the webhook answers changes nothing in what
  \<open>addLeadsToDatabase\<close> does.
\<close>

theorem sendLeadsToWebhook_counts:
  "\<exists>r tr. sendLeadsToWebhook w cls = Some (Inr r, tr)
     \<and> successCount r = length (filter (delivered w) (tagged_from 0 cls))
     \<and> failCount r = length (filter (\<lambda>jc. \<not> delivered w jc) (tagged_from 0 cls))
     \<and> successCount r + failCount r = length cls
     \<and> posts tr = map (\<lambda>(j, c). (j, build_payload w j c)) (tagged_from 0 cls)
     \<and> (\<forall>jc\<in>set (tagged_from 0 cls). \<not> delivered w jc \<longrightarrow> Console (failure_line w jc) \<in> set tr)
     \<and> (\<forall>p. addLeadsToDatabase (w\<lparr>axios_post := p\<rparr>) cls = addLeadsToDatabase w cls)"
proof -
  have K: "1 \<le> CONCURRENCY" by (simp add: CONCURRENCY_def)
  let ?evs = "schedule CONCURRENCY (webhook_latency w) cls"
  let ?ok = "length (filter (delivered w) (tagged_from 0 cls))"
  let ?bad = "length (filter (\<lambda>jc. \<not> delivered w jc) (tagged_from 0 cls))"
  let ?tr = "Console (Log_sending (length cls) CONCURRENCY)
             # concat (map (webhook_effects w) ?evs) @ [Console (Log_webhook ?ok ?bad)]"
  have run: "sendLeadsToWebhook w cls = Some (Inr \<lparr>successCount = ?ok, failCount = ?bad\<rparr>, ?tr)"
    by (rule sendLeadsToWebhook_run)
  have total: "?ok + ?bad = length cls"
    using sum_length_filter_compl [of "delivered w" "tagged_from 0 cls"]
    by (simp add: tagged_from_def)
  have once: "posts ?tr = map (\<lambda>(j, c). (j, build_payload w j c)) (tagged_from 0 cls)"
    by (simp add: posts_append posts_webhook_effects started_of_schedule [OF K])
  have logged: "Console (failure_line w jc) \<in> set ?tr"
    if "jc \<in> set (tagged_from 0 cls)" and "\<not> delivered w jc" for jc
  proof -
    obtain j c where jc: "jc = (j, c)" by (cases jc)
    have "Settled j c \<in> set ?evs"
      using that(1) set_settled_of_schedule [OF K, of "webhook_latency w" cls]
      by (simp add: jc settled_in_set [symmetric])
    then show ?thesis
      using failure_logged [of j c ?evs w] that(2) by (simp add: jc)
  qed
  show ?thesis
    using run total once logged env_axios_post_irrelevant by auto
qed

theorem sendLeadsToWebhook_counts_witness:
  "\<exists>tr. sendLeadsToWebhook world1 (classified_of world1 [lead1, lead2, lead3])
           = Some (Inr \<lparr>successCount = 2, failCount = 1\<rparr>, tr)
        \<and> Console (Err_webhook ''ben@dos.example'' ''Request failed with status code 500'') \<in> set tr"
proof -
  let ?cls = "classified_of world1 [lead1, lead2, lead3]"
  have ok: "length (filter (delivered world1) (tagged_from 0 ?cls)) = 2"
    by code_simp
  have bad: "length (filter (\<lambda>jc. \<not> delivered world1 jc) (tagged_from 0 ?cls)) = 1"
    by code_simp
  have mem: "(1, \<lparr>lead = lead2, persona = ''Persona 2''\<rparr>) \<in> set (tagged_from 0 ?cls)"
    by code_simp
  have nd: "\<not> delivered world1 (1, \<lparr>lead = lead2, persona = ''Persona 2''\<rparr>)"
    by code_simp
  have line: "failure_line world1 (1, \<lparr>lead = lead2, persona = ''Persona 2''\<rparr>)
      = Err_webhook ''ben@dos.example'' ''Request failed with status code 500''"
    by code_simp
  from sendLeadsToWebhook_counts [of world1 ?cls] obtain r tr where
    r: "sendLeadsToWebhook world1 ?cls = Some (Inr r, tr)"
       "successCount r = length (filter (delivered world1) (tagged_from 0 ?cls))"
       "failCount r = length (filter (\<lambda>jc. \<not> delivered world1 jc) (tagged_from 0 ?cls))"
    and logged: "\<forall>jc\<in>set (tagged_from 0 ?cls). \<not> delivered world1 jc
                   \<longrightarrow> Console (failure_line world1 jc) \<in> set tr"
    by blast
  have "r = \<lparr>successCount = 2, failCount = 1\<rparr>"
    using r(2,3) ok bad by (cases r) simp
  moreover have "Console (Err_webhook ''ben@dos.example'' ''Request failed with status code 500'') \<in> set tr"
    using logged mem nd line by metis
  ultimately show ?thesis using r(1) by blast
qed

subsection \<open>A batch of duplicates\<close>

text \<open>
  C9, as the code has it. In every run in which no new lead is left after the duplicate
  check, \<open>main\<close> returns after the existence query, which is its only call to a service:
  no classification request, no insert and no delivery is issued. The last line it prints
  says that there is nothing to process; it prints no summary, so no count of processed,
  persisted or delivered records is reported. The number of duplicates found is then the
  size of the batch.
\<close>

theorem main_short_circuit:
  assumes "readFileSync_parse w CSV_FILE_PATH = Csv_records leads"
    and "newLeads (fst (filterDuplicates w leads)) = []"
  shows "\<exists>tr. main w = Some (Returned, tr)
     \<and> external_calls tr = [Select_issued (map Email leads)]
     \<and> inserted tr = [] \<and> posts tr = []
     \<and> summaries tr = []
     \<and> last tr = Console Log_nothing_to_process
     \<and> duplicateCount (fst (filterDuplicates w leads)) = length leads"
proof -
  obtain dedup t3 where fd: "filterDuplicates w leads = (dedup, t3)"
    by (cases "filterDuplicates w leads")
  have p3: "external_calls t3 = [Select_issued (map Email leads)] \<and> summaries t3 = [] \<and> inserted t3 = []"
    using filterDuplicates_projections [of w leads] fd by simp
  have "posts (external_calls tr) = posts tr" for tr
    by (induction tr rule: posts.induct) (simp_all add: external_calls_Cons external_calls_Nil)
  then have p3': "posts t3 = []" using p3 by (metis posts.simps(1,4))
  have none: "newLeads dedup = []" using assms(2) fd by simp
  have dup: "duplicateCount dedup = length leads"
  proof (cases "query_failed (select_email_in w (map Email leads))")
    case True
    then show ?thesis using filterDuplicates_failed [of w leads] fd none by simp
  next
    case False
    then obtain rows where ok: "select_email_in w (map Email leads) = Select_returns (Some rows) None"
      by (cases "select_email_in w (map Email leads)" rule: query_failed.cases) simp_all
    show ?thesis
      using filterDuplicates_ok [OF ok] fd none
        sum_length_filter_compl [of "\<lambda>ld. Email ld \<in> set rows" leads]
      by simp
  qed
  show ?thesis
    using none p3 p3' dup
    by (simp add: main_def readCSV_ok [OF assms(1)] fd
        external_calls_append summaries_append inserted_append posts_append
        external_calls_Cons external_calls_Nil)
qed

theorem main_reports_no_counts_counterexample:
  "readFileSync_parse world_all_known CSV_FILE_PATH = Csv_records [lead1, lead2, lead3]
   \<and> newLeads (fst (filterDuplicates world_all_known [lead1, lead2, lead3])) = []
   \<and> main world_all_known =
       Some (Returned,
         [Console Log_rule, Console (Log_title ''LEAD CLASSIFICATION AUTOMATION''), Console Log_rule,
          Console Log_reading_csv, Console (Log_read_ok 3),
          Console Log_rule, Console (Log_title ''PROCESSING LEADS''), Console Log_rule,
          Console Log_checking_duplicates,
          Select_issued [''ana@uno.example'', ''ben@dos.example'', ''cris@tres.example''],
          Console (Log_skipped ''Ana'' ''Ruiz''), Console (Log_skipped ''Ben'' ''Diaz''),
          Console (Log_skipped ''Cris'' ''Soto''),
          Console (Log_found 3 0),
          Console Log_nothing_to_process])
   \<and> summary_of_run (main world_all_known) = []"
  by code_simp

theorem main_short_circuit_witness:
  "readFileSync_parse world_all_known CSV_FILE_PATH = Csv_records [lead1, lead2, lead3]
   \<and> newLeads (fst (filterDuplicates world_all_known [lead1, lead2, lead3])) = []
   \<and> (\<exists>tr. main world_all_known = Some (Returned, tr)
         \<and> external_calls tr = [Select_issued [''ana@uno.example'', ''ben@dos.example'', ''cris@tres.example'']]
         \<and> summaries tr = []
         \<and> last tr = Console Log_nothing_to_process)"
proof -
  have csv: "readFileSync_parse world_all_known CSV_FILE_PATH = Csv_records [lead1, lead2, lead3]"
    by (simp add: world_all_known_def world1_def)
  have none: "newLeads (fst (filterDuplicates world_all_known [lead1, lead2, lead3])) = []"
    by code_simp
  have emails: "map Email [lead1, lead2, lead3]
      = [''ana@uno.example'', ''ben@dos.example'', ''cris@tres.example'']"
    by (simp add: lead1_def lead2_def lead3_def)
  show ?thesis
    using csv none main_short_circuit [OF csv none] unfolding emails by blast
qed

end
